theory Spec2Isabelle
  imports Main "HOL-Library.Word"
begin

section \<open>The caching device allocator (aten/src/THC/THCCachingAllocator.cpp)\<close>

text \<open>
  \<open>size_t\<close> is a 64-bit unsigned integer, modelled as \<open>64 word\<close>: \<open>+\<close> and \<open>-\<close> wrap,
  \<open>mod\<close> and the orderings are unsigned, as in the C++.
\<close>

type_synonym size_t = "64 word"

definition kRoundSmall :: size_t where
  "kRoundSmall = 512"

definition kRoundLarge :: size_t where
  "kRoundLarge = 131072"

definition kSmallAlloc :: size_t where
  "kSmallAlloc = 1048576"

definition round_size :: "size_t \<Rightarrow> size_t" where
  "round_size sz =
     (if sz < kRoundSmall then kRoundSmall
      else if sz < kSmallAlloc then sz + (kRoundSmall - 1 - (sz - 1) mod kRoundSmall)
      else sz + (kRoundLarge - 1 - (sz - 1) mod kRoundLarge))"

subsection \<open>The CUDA runtime as the allocator calls it\<close>

text \<open>
  The allocator reaches the device only through the CUDA runtime API. The runtime is not
  part of the repository, so the outcome of every call is an input of the model: the
  status each call returns, the pointers \<open>cudaMalloc\<close> hands out (one entry of
  \<open>malloc_results\<close> per call, in order; an exhausted list is an exhausted device), and
  the one piece of runtime state the allocator changes, the current device.
\<close>

datatype cudaError_t = cudaSuccess | cudaErrorMemoryAllocation | cudaErrorNotReady | cudaErrorOther nat

type_synonym cudaStream_t = "64 word"
type_synonym cudaEvent_t = nat
type_synonym devptr = "64 word"

text \<open>
  A \<open>THCStream*\<close>: the address of the stream object, with the device and the CUDA stream
  that \<open>THCStream_device\<close> and \<open>THCStream_stream\<close> read from it.
\<close>

record THCStream =
  THCStream_addr :: nat
  THCStream_device :: int
  THCStream_stream :: cudaStream_t

record cuda_runtime =
  current_device :: int
  getDevice_status :: cudaError_t
  setDevice_status :: "int \<Rightarrow> cudaError_t"
  malloc_results :: "(cudaError_t \<times> devptr) list"
  free_status :: "devptr \<Rightarrow> cudaError_t"
  memGetInfo_status :: cudaError_t
  memGetInfo_free :: size_t
  memGetInfo_total :: size_t
  eventCreate_status :: cudaError_t
  next_event :: cudaEvent_t
  eventRecord_status :: "cudaEvent_t \<Rightarrow> cudaError_t"
  eventQuery_status :: "cudaEvent_t \<Rightarrow> cudaError_t"
  eventDestroy_status :: "cudaEvent_t \<Rightarrow> cudaError_t"

definition cudaMalloc :: "cuda_runtime \<Rightarrow> (cudaError_t \<times> devptr) \<times> cuda_runtime" where
  "cudaMalloc rt =
     (case malloc_results rt of
        [] \<Rightarrow> ((cudaErrorMemoryAllocation, 0), rt)
      | r # rs \<Rightarrow> (r, rt\<lparr>malloc_results := rs\<rparr>))"

subsection \<open>Errors\<close>

text \<open>
  \<open>AT_CUDA_CHECK\<close> throws on a status other than \<open>cudaSuccess\<close>; \<open>AT_ERROR\<close> and a failed
  \<open>THAssert\<close> throw too. An exception leaves the mutations made before it in place, so an
  error result carries the state at the throw.
\<close>

datatype error =
    CudaError cudaError_t
  | OutOfMemory size_t int size_t "64 word" size_t "64 word"
  | InvalidPointer devptr
  | AssertionFailed

subsection \<open>DeviceStats and Block\<close>

record DeviceStats =
  amount_allocated :: "64 word"
  max_amount_allocated :: "64 word"
  amount_cached :: "64 word"
  max_amount_cached :: "64 word"

definition DeviceStats_init :: DeviceStats where
  "DeviceStats_init =
     \<lparr>amount_allocated = 0, max_amount_allocated = 0, amount_cached = 0, max_amount_cached = 0\<rparr>"

definition increaseAllocated :: "size_t \<Rightarrow> DeviceStats \<Rightarrow> DeviceStats" where
  "increaseAllocated delta s =
     (let a = amount_allocated s + delta
      in s\<lparr>amount_allocated := a, max_amount_allocated := max (max_amount_allocated s) a\<rparr>)"

definition decreaseAllocated :: "size_t \<Rightarrow> DeviceStats \<Rightarrow> DeviceStats" where
  "decreaseAllocated delta s = s\<lparr>amount_allocated := amount_allocated s - delta\<rparr>"

definition increaseCached :: "size_t \<Rightarrow> DeviceStats \<Rightarrow> DeviceStats" where
  "increaseCached delta s =
     (let c = amount_cached s + delta
      in s\<lparr>amount_cached := c, max_amount_cached := max (max_amount_cached s) c\<rparr>)"

definition decreaseCached :: "size_t \<Rightarrow> DeviceStats \<Rightarrow> DeviceStats" where
  "decreaseCached delta s = s\<lparr>amount_cached := amount_cached s - delta\<rparr>"

text \<open>
  A \<open>Block*\<close> is an address in the store of blocks (\<open>heap\<close> below); \<open>None\<close> is \<open>NULL\<close>.
  \<open>stream_uses\<close> is a \<open>std::set\<close> of shared pointers, which orders and identifies its
  elements by the address of the stream object: the list of its elements in that order.
\<close>

type_synonym block_ptr = nat

record Block =
  b_device :: int
  b_stream :: cudaStream_t
  stream_uses :: "THCStream list"
  b_size :: size_t
  b_ptr :: devptr
  allocated :: bool
  b_prev :: "block_ptr option"
  b_next :: "block_ptr option"
  event_count :: int

definition Block_init :: "int \<Rightarrow> cudaStream_t \<Rightarrow> size_t \<Rightarrow> devptr \<Rightarrow> Block" where
  "Block_init device stream sz p =
     \<lparr>b_device = device, b_stream = stream, stream_uses = [], b_size = sz, b_ptr = p,
      allocated = False, b_prev = None, b_next = None, event_count = 0\<rparr>"

definition BlockComparator :: "Block \<Rightarrow> Block \<Rightarrow> bool" where
  "BlockComparator a b =
     (if b_device a \<noteq> b_device b then b_device a < b_device b
      else if b_stream a \<noteq> b_stream b then b_stream a < b_stream b
      else if b_size a \<noteq> b_size b then b_size a < b_size b
      else b_ptr a < b_ptr b)"

subsection \<open>The allocator's state\<close>

text \<open>
  A pool (\<open>std::set<Block*, Comparison>\<close>) is the list of its elements in the
  comparator's order. \<open>heap\<close> holds the \<open>Block\<close> objects and \<open>next_block\<close> is the address
  the next \<open>new Block\<close> returns.
\<close>

record THCCachingAllocator =
  device_stats :: "DeviceStats list"
  large_blocks :: "block_ptr list"
  small_blocks :: "block_ptr list"
  allocated_blocks :: "devptr \<rightharpoonup> block_ptr"
  cuda_events :: "(cudaEvent_t \<times> block_ptr) list"
  heap :: "block_ptr \<Rightarrow> Block"
  next_block :: block_ptr

definition THCCachingAllocator_init :: THCCachingAllocator where
  "THCCachingAllocator_init =
     \<lparr>device_stats = [], large_blocks = [], small_blocks = [], allocated_blocks = Map.empty,
      cuda_events = [], heap = (\<lambda>_. Block_init 0 0 0 0), next_block = 0\<rparr>"

definition update_block :: "block_ptr \<Rightarrow> (Block \<Rightarrow> Block) \<Rightarrow> THCCachingAllocator \<Rightarrow> THCCachingAllocator" where
  "update_block b f st = st\<lparr>heap := (heap st)(b := f (heap st b))\<rparr>"

definition new_Block :: "Block \<Rightarrow> THCCachingAllocator \<Rightarrow> block_ptr \<times> THCCachingAllocator" where
  "new_Block blk st =
     (next_block st, st\<lparr>heap := (heap st)(next_block st := blk), next_block := Suc (next_block st)\<rparr>)"

text \<open>\<open>stream_uses.insert\<close>: a stream object that is in the set already is not added again.\<close>

fun stream_set_insert :: "THCStream \<Rightarrow> THCStream list \<Rightarrow> THCStream list" where
  "stream_set_insert s [] = [s]"
| "stream_set_insert s (x # xs) =
     (if THCStream_addr s < THCStream_addr x then s # x # xs
      else if THCStream_addr x < THCStream_addr s then x # stream_set_insert s xs
      else x # xs)"

text \<open>The pool that \<open>auto& free_blocks = small ? small_blocks : large_blocks\<close> refers to.\<close>

definition free_blocks_of :: "bool \<Rightarrow> THCCachingAllocator \<Rightarrow> block_ptr list" where
  "free_blocks_of small st = (if small then small_blocks st else large_blocks st)"

definition set_free_blocks :: "bool \<Rightarrow> block_ptr list \<Rightarrow> THCCachingAllocator \<Rightarrow> THCCachingAllocator" where
  "set_free_blocks small pool st =
     (if small then st\<lparr>small_blocks := pool\<rparr> else st\<lparr>large_blocks := pool\<rparr>)"

text \<open>\<open>std::set\<close> operations on a pool: \<open>lower_bound\<close> returns the elements from the iterator on.\<close>

definition lower_bound :: "(block_ptr \<Rightarrow> Block) \<Rightarrow> Block \<Rightarrow> block_ptr list \<Rightarrow> block_ptr list" where
  "lower_bound h k pool = dropWhile (\<lambda>b. BlockComparator (h b) k) pool"

fun set_insert :: "(block_ptr \<Rightarrow> Block) \<Rightarrow> block_ptr \<Rightarrow> block_ptr list \<Rightarrow> block_ptr list" where
  "set_insert h b [] = [b]"
| "set_insert h b (x # xs) =
     (if BlockComparator (h b) (h x) then b # x # xs
      else if BlockComparator (h x) (h b) then x # set_insert h b xs
      else x # xs)"

fun set_erase :: "(block_ptr \<Rightarrow> Block) \<Rightarrow> Block \<Rightarrow> block_ptr list \<Rightarrow> block_ptr list" where
  "set_erase h k [] = []"
| "set_erase h k (x # xs) =
     (if \<not> BlockComparator (h x) k \<and> \<not> BlockComparator k (h x) then xs
      else x # set_erase h k xs)"

subsection \<open>Statistics\<close>

definition get_stats_for_device ::
  "THCCachingAllocator \<Rightarrow> int \<Rightarrow> (error \<times> THCCachingAllocator) + THCCachingAllocator" where
  "get_stats_for_device st device =
     (if \<not> device \<ge> 0 then Inl (AssertionFailed, st)
      else if nat device \<ge> length (device_stats st)
      then Inr (st\<lparr>device_stats := device_stats st @
                  replicate (nat device + 1 - length (device_stats st)) DeviceStats_init\<rparr>)
      else Inr st)"

definition update_stats :: "int \<Rightarrow> (DeviceStats \<Rightarrow> DeviceStats) \<Rightarrow> THCCachingAllocator \<Rightarrow> THCCachingAllocator" where
  "update_stats device f st =
     st\<lparr>device_stats := (device_stats st)[nat device := f (device_stats st ! nat device)]\<rparr>"

subsection \<open>Returning blocks to the pools\<close>

definition try_merge_blocks ::
  "block_ptr \<Rightarrow> block_ptr option \<Rightarrow> bool \<Rightarrow> THCCachingAllocator \<Rightarrow> THCCachingAllocator" where
  "try_merge_blocks dst src_opt small st =
     (case src_opt of
        None \<Rightarrow> st
      | Some src \<Rightarrow>
          if allocated (heap st src) \<or> event_count (heap st src) > 0 then st
          else
            let st1 =
              (if b_prev (heap st dst) = Some src then
                 let s1 = update_block dst (\<lambda>d. d\<lparr>b_ptr := b_ptr (heap st src), b_prev := b_prev (heap st src)\<rparr>) st
                 in (case b_prev (heap s1 dst) of
                       None \<Rightarrow> s1
                     | Some p \<Rightarrow> update_block p (\<lambda>q. q\<lparr>b_next := Some dst\<rparr>) s1)
               else
                 let s1 = update_block dst (\<lambda>d. d\<lparr>b_next := b_next (heap st src)\<rparr>) st
                 in (case b_next (heap s1 dst) of
                       None \<Rightarrow> s1
                     | Some n \<Rightarrow> update_block n (\<lambda>q. q\<lparr>b_prev := Some dst\<rparr>) s1));
              st2 = update_block dst (\<lambda>d. d\<lparr>b_size := b_size d + b_size (heap st1 src)\<rparr>) st1
            in set_free_blocks small (set_erase (heap st2) (heap st2 src) (free_blocks_of small st2)) st2)"

definition free_block ::
  "THCCachingAllocator \<Rightarrow> block_ptr \<Rightarrow> (error \<times> THCCachingAllocator) + THCCachingAllocator" where
  "free_block st block =
     (if \<not> (\<not> allocated (heap st block) \<and> event_count (heap st block) = 0)
      then Inl (AssertionFailed, st)
      else
        let small = b_size (heap st block) \<le> kSmallAlloc;
            st1 = try_merge_blocks block (b_prev (heap st block)) small st;
            st2 = try_merge_blocks block (b_next (heap st1 block)) small st1
        in Inr (set_free_blocks small (set_insert (heap st2) block (free_blocks_of small st2)) st2))"

subsection \<open>Events\<close>

text \<open>
  \<open>insert_events\<close>: one event per stream the block was used on. The loop runs over the
  streams moved out of the block; \<open>cudaSetDevice(prev_device)\<close> at the end is unchecked.
\<close>

fun insert_events_loop ::
  "block_ptr \<Rightarrow> THCStream list \<Rightarrow> cuda_runtime \<Rightarrow> THCCachingAllocator \<Rightarrow>
   (error \<times> cuda_runtime \<times> THCCachingAllocator) + (cuda_runtime \<times> THCCachingAllocator)" where
  "insert_events_loop block [] rt st = Inr (rt, st)"
| "insert_events_loop block (stream # streams) rt st =
     (if setDevice_status rt (THCStream_device stream) \<noteq> cudaSuccess
      then Inl (CudaError (setDevice_status rt (THCStream_device stream)), rt, st)
      else
        let rt1 = rt\<lparr>current_device := THCStream_device stream\<rparr> in
        if eventCreate_status rt1 \<noteq> cudaSuccess
        then Inl (CudaError (eventCreate_status rt1), rt1, st)
        else
          let event = next_event rt1;
              rt2 = rt1\<lparr>next_event := Suc (next_event rt1)\<rparr> in
          if eventRecord_status rt2 event \<noteq> cudaSuccess
          then Inl (CudaError (eventRecord_status rt2 event), rt2, st)
          else
            let st1 = update_block block (\<lambda>b. b\<lparr>event_count := event_count b + 1\<rparr>) st;
                st2 = st1\<lparr>cuda_events := cuda_events st1 @ [(event, block)]\<rparr>
            in insert_events_loop block streams rt2 st2)"

definition insert_events ::
  "cuda_runtime \<Rightarrow> THCCachingAllocator \<Rightarrow> block_ptr \<Rightarrow>
   (error \<times> cuda_runtime \<times> THCCachingAllocator) + (cuda_runtime \<times> THCCachingAllocator)" where
  "insert_events rt st block =
     (if getDevice_status rt \<noteq> cudaSuccess then Inl (CudaError (getDevice_status rt), rt, st)
      else
        let prev_device = current_device rt;
            streams = stream_uses (heap st block);
            st1 = update_block block (\<lambda>b. b\<lparr>stream_uses := []\<rparr>) st
        in (case insert_events_loop block streams rt st1 of
              Inl e \<Rightarrow> Inl e
            | Inr (rt1, st2) \<Rightarrow>
                Inr (if setDevice_status rt1 prev_device = cudaSuccess
                     then rt1\<lparr>current_device := prev_device\<rparr> else rt1, st2)))"

lemma cuda_events_update_block: "cuda_events (update_block b f st) = cuda_events st"
  by (simp add: update_block_def)

lemma cuda_events_set_free_blocks: "cuda_events (set_free_blocks small pool st) = cuda_events st"
  by (simp add: set_free_blocks_def)

lemma cuda_events_try_merge_blocks: "cuda_events (try_merge_blocks dst src small st) = cuda_events st"
  by (simp add: try_merge_blocks_def Let_def cuda_events_update_block cuda_events_set_free_blocks
      split: option.splits)

lemma cuda_events_free_block: "free_block st b = Inr st' \<Longrightarrow> cuda_events st' = cuda_events st"
  by (auto simp: free_block_def Let_def cuda_events_set_free_blocks cuda_events_try_merge_blocks
      split: if_splits)

text \<open>
  \<open>process_events\<close>: the loop pops the front of the queue after each completed event and
  stops at the first event that is not ready.
\<close>

function process_events ::
  "cuda_runtime \<Rightarrow> THCCachingAllocator \<Rightarrow> (error \<times> THCCachingAllocator) + THCCachingAllocator" where
  "process_events rt st =
     (case cuda_events st of
        [] \<Rightarrow> Inr st
      | e # es \<Rightarrow>
          if eventQuery_status rt (fst e) = cudaErrorNotReady then Inr st
          else if eventQuery_status rt (fst e) \<noteq> cudaSuccess
          then Inl (CudaError (eventQuery_status rt (fst e)), st)
          else if eventDestroy_status rt (fst e) \<noteq> cudaSuccess
          then Inl (CudaError (eventDestroy_status rt (fst e)), st)
          else
            (case (let st1 = update_block (snd e) (\<lambda>b. b\<lparr>event_count := event_count b - 1\<rparr>) st
                   in if event_count (heap st1 (snd e)) = 0 then free_block st1 (snd e) else Inr st1) of
               Inl err \<Rightarrow> Inl err
             | Inr st2 \<Rightarrow> process_events rt (st2\<lparr>cuda_events := tl (cuda_events st2)\<rparr>)))"
  by pat_completeness auto
termination
proof (relation "measure (\<lambda>(rt, st). length (cuda_events st))", goal_cases)
  case 1
  show ?case by simp
next
  case (2 rt st e es x2)
  have "cuda_events x2 = cuda_events st"
    using 2 by (auto simp: Let_def cuda_events_update_block split: if_splits dest!: cuda_events_free_block)
  then show ?case using 2 by simp
qed

declare process_events.simps [simp del]

subsection \<open>Releasing cached blocks\<close>

text \<open>
  \<open>free_blocks(blocks, it, end)\<close>: the loop runs over the elements between the two
  iterators; the model passes them as a list and names the pool by \<open>small\<close>.
\<close>

fun free_blocks ::
  "cuda_runtime \<Rightarrow> bool \<Rightarrow> block_ptr list \<Rightarrow> THCCachingAllocator \<Rightarrow>
   (error \<times> THCCachingAllocator) + THCCachingAllocator" where
  "free_blocks rt small [] st = Inr st"
| "free_blocks rt small (block # its) st =
     (if b_prev (heap st block) = None \<and> b_next (heap st block) = None then
        if free_status rt (b_ptr (heap st block)) \<noteq> cudaSuccess
        then Inl (CudaError (free_status rt (b_ptr (heap st block))), st)
        else
          (case get_stats_for_device st (b_device (heap st block)) of
             Inl e \<Rightarrow> Inl e
           | Inr st1 \<Rightarrow>
               let st2 = update_stats (b_device (heap st block)) (decreaseCached (b_size (heap st block))) st1;
                   st3 = set_free_blocks small (remove1 block (free_blocks_of small st2)) st2
               in free_blocks rt small its st3)
      else free_blocks rt small its st)"

definition iterator_range :: "(block_ptr \<Rightarrow> Block) \<Rightarrow> Block \<Rightarrow> Block \<Rightarrow> block_ptr list \<Rightarrow> block_ptr list" where
  "iterator_range h lo hi pool =
     drop (length pool - length (lower_bound h lo pool))
       (take (length pool - length (lower_bound h hi pool)) pool)"

definition free_cached_blocks ::
  "cuda_runtime \<Rightarrow> THCCachingAllocator \<Rightarrow> int \<Rightarrow> (error \<times> THCCachingAllocator) + THCCachingAllocator" where
  "free_cached_blocks rt st device =
     (let lower = Block_init device 0 0 0;
          upper = Block_init (device + 1) 0 0 0
      in case free_blocks rt False (iterator_range (heap st) lower upper (large_blocks st)) st of
           Inl e \<Rightarrow> Inl e
         | Inr st1 \<Rightarrow> free_blocks rt True (iterator_range (heap st1) lower upper (small_blocks st1)) st1)"

definition cuda_malloc_retry ::
  "cuda_runtime \<Rightarrow> THCCachingAllocator \<Rightarrow> int \<Rightarrow> size_t \<Rightarrow>
   (error \<times> cuda_runtime \<times> THCCachingAllocator) +
   ((cudaError_t \<times> devptr) \<times> cuda_runtime \<times> THCCachingAllocator)" where
  "cuda_malloc_retry rt st device sz =
     (case cudaMalloc rt of
        ((err, p), rt1) \<Rightarrow>
          if err \<noteq> cudaSuccess then
            (case free_cached_blocks rt1 st device of
               Inl (e, st1) \<Rightarrow> Inl (e, rt1, st1)
             | Inr st1 \<Rightarrow>
                 (case cudaMalloc rt1 of
                    ((err2, p2), rt2) \<Rightarrow>
                      if err2 \<noteq> cudaSuccess then Inr ((err2, p2), rt2, st1)
                      else Inr ((cudaSuccess, p2), rt2, st1)))
          else Inr ((cudaSuccess, p), rt1, st))"

subsection \<open>malloc\<close>

text \<open>
  The search of \<open>malloc\<close> (lines 185 to 238): the smallest cached block of the device and
  stream that is large enough, or else a fresh allocation from the runtime. Pool elements
  are distinct, so erasing at the iterator is \<open>remove1\<close>.
\<close>

definition malloc_find_block ::
  "cuda_runtime \<Rightarrow> THCCachingAllocator \<Rightarrow> int \<Rightarrow> cudaStream_t \<Rightarrow> size_t \<Rightarrow> bool \<Rightarrow>
   (error \<times> cuda_runtime \<times> THCCachingAllocator) + (block_ptr \<times> cuda_runtime \<times> THCCachingAllocator)" where
  "malloc_find_block rt st device stream sz small =
     (let search_key = Block_init device stream sz 0;
          it = lower_bound (heap st) search_key (free_blocks_of small st)
      in if it \<noteq> [] \<and> b_device (heap st (hd it)) = device \<and> b_stream (heap st (hd it)) = stream
         then Inr (hd it, rt, set_free_blocks small (remove1 (hd it) (free_blocks_of small st)) st)
         else
           let alloc_size = (if small then kSmallAlloc else sz) in
           case cuda_malloc_retry rt st device alloc_size of
             Inl e \<Rightarrow> Inl e
           | Inr ((err, p), rt1, st1) \<Rightarrow>
               if err \<noteq> cudaSuccess then
                 if err = cudaErrorMemoryAllocation then
                   if memGetInfo_status rt1 \<noteq> cudaSuccess
                   then Inl (CudaError (memGetInfo_status rt1), rt1, st1)
                   else
                     (case get_stats_for_device st1 device of
                        Inl (e, st2) \<Rightarrow> Inl (e, rt1, st2)
                      | Inr st2 \<Rightarrow>
                          let stats = device_stats st2 ! nat device
                          in Inl (OutOfMemory alloc_size device (memGetInfo_total rt1)
                                    (amount_allocated stats) (memGetInfo_free rt1)
                                    (amount_cached stats - amount_allocated stats), rt1, st2))
                 else Inl (CudaError err, rt1, st1)
               else
                 let st2 = update_stats device (increaseCached alloc_size) st1;
                     (block, st3) = new_Block (Block_init device stream alloc_size p) st2
                 in Inr (block, rt1, st3))"

text \<open>The split of \<open>malloc\<close> (lines 240 to 254). It returns the block to hand out.\<close>

definition malloc_split ::
  "int \<Rightarrow> cudaStream_t \<Rightarrow> size_t \<Rightarrow> bool \<Rightarrow> block_ptr \<Rightarrow> THCCachingAllocator \<Rightarrow>
   block_ptr \<times> THCCachingAllocator" where
  "malloc_split device stream sz small block st =
     (if b_size (heap st block) - sz \<ge> (if small then kRoundSmall else kSmallAlloc + 1) then
        let remaining = block;
            (block', st1) = new_Block (Block_init device stream sz (b_ptr (heap st block))) st;
            st2 = update_block block' (\<lambda>b. b\<lparr>b_prev := b_prev (heap st1 remaining)\<rparr>) st1;
            st3 = (case b_prev (heap st2 block') of
                     None \<Rightarrow> st2
                   | Some p \<Rightarrow> update_block p (\<lambda>q. q\<lparr>b_next := Some block'\<rparr>) st2);
            st4 = update_block block' (\<lambda>b. b\<lparr>b_next := Some remaining\<rparr>) st3;
            st5 = update_block remaining (\<lambda>r. r\<lparr>b_prev := Some block'\<rparr>) st4;
            st6 = update_block remaining (\<lambda>r. r\<lparr>b_ptr := b_ptr r + sz\<rparr>) st5;
            st7 = update_block remaining (\<lambda>r. r\<lparr>b_size := b_size r - sz\<rparr>) st6;
            st8 = set_free_blocks small (set_insert (heap st7) remaining (free_blocks_of small st7)) st7
        in (block', st8)
      else (block, st))"

text \<open>
  \<open>malloc(devPtr, size, stream)\<close>; the pointer written to \<open>*devPtr\<close> is the result.
  \<open>stats\<close> is a reference into \<open>device_stats\<close> taken before the search; the model updates
  the entry of \<open>device\<close>.
\<close>

definition malloc ::
  "cuda_runtime \<Rightarrow> THCCachingAllocator \<Rightarrow> size_t \<Rightarrow> cudaStream_t \<Rightarrow>
   (error \<times> cuda_runtime \<times> THCCachingAllocator) + (devptr \<times> cuda_runtime \<times> THCCachingAllocator)" where
  "malloc rt st sz0 stream =
     (if getDevice_status rt \<noteq> cudaSuccess then Inl (CudaError (getDevice_status rt), rt, st)
      else
        let device = current_device rt in
        case process_events rt st of
          Inl (e, st1) \<Rightarrow> Inl (e, rt, st1)
        | Inr st1 \<Rightarrow>
            let sz = round_size sz0;
                small = (sz \<le> kSmallAlloc)
            in case get_stats_for_device st1 device of
                 Inl (e, st2) \<Rightarrow> Inl (e, rt, st2)
               | Inr st2 \<Rightarrow>
                   (case malloc_find_block rt st2 device stream sz small of
                      Inl e \<Rightarrow> Inl e
                    | Inr (found, rt1, st3) \<Rightarrow>
                        let (block, st4) = malloc_split device stream sz small found st3;
                            st5 = update_block block (\<lambda>b. b\<lparr>allocated := True\<rparr>) st4;
                            st6 = st5\<lparr>allocated_blocks :=
                                    (allocated_blocks st5)(b_ptr (heap st5 block) \<mapsto> block)\<rparr>;
                            st7 = update_stats device (increaseAllocated (b_size (heap st6 block))) st6
                        in Inr (b_ptr (heap st6 block), rt1, st7)))"

subsection \<open>free and recordStream\<close>

definition free ::
  "cuda_runtime \<Rightarrow> THCCachingAllocator \<Rightarrow> devptr \<Rightarrow>
   (error \<times> cuda_runtime \<times> THCCachingAllocator) + (cuda_runtime \<times> THCCachingAllocator)" where
  "free rt st p =
     (if p = 0 then Inr (rt, st)
      else
        case allocated_blocks st p of
          None \<Rightarrow> Inl (InvalidPointer p, rt, st)
        | Some block \<Rightarrow>
            let st1 = st\<lparr>allocated_blocks := (allocated_blocks st)(p := None)\<rparr>;
                st2 = update_block block (\<lambda>b. b\<lparr>allocated := False\<rparr>) st1
            in case get_stats_for_device st2 (b_device (heap st2 block)) of
                 Inl (e, st3) \<Rightarrow> Inl (e, rt, st3)
               | Inr st3 \<Rightarrow>
                   let st4 = update_stats (b_device (heap st3 block))
                               (decreaseAllocated (b_size (heap st3 block))) st3
                   in if stream_uses (heap st4 block) \<noteq> [] then insert_events rt st4 block
                      else
                        (case free_block st4 block of
                           Inl (e, st5) \<Rightarrow> Inl (e, rt, st5)
                         | Inr st5 \<Rightarrow> Inr (rt, st5)))"

definition recordStream ::
  "THCCachingAllocator \<Rightarrow> devptr \<Rightarrow> THCStream \<Rightarrow> (error \<times> THCCachingAllocator) + THCCachingAllocator" where
  "recordStream st p stream =
     (case allocated_blocks st p of
        None \<Rightarrow> Inl (InvalidPointer p, st)
      | Some block \<Rightarrow>
          if THCStream_stream stream = b_stream (heap st block) then Inr st
          else Inr (update_block block (\<lambda>b. b\<lparr>stream_uses := stream_set_insert stream (stream_uses b)\<rparr>) st))"

text \<open>
  \<open>get_stats_for_device(device).amount_allocated\<close>, the statistic that
  \<open>THCCachingAllocator_currentMemoryAllocated\<close> returns for a valid device: the entry of a
  device not touched so far is created zeroed; \<open>None\<close> is the failed assertion on a
  negative device.
\<close>

definition read_amount_allocated :: "THCCachingAllocator \<Rightarrow> int \<Rightarrow> 64 word option" where
  "read_amount_allocated st device =
     (case get_stats_for_device st device of
        Inl _ \<Rightarrow> None
      | Inr st1 \<Rightarrow> Some (amount_allocated (device_stats st1 ! nat device)))"

text \<open>\<open>is_least_multiple k s r\<close>: \<open>r\<close> is the least multiple of \<open>k\<close> that is at least \<open>s\<close>.\<close>

definition is_least_multiple :: "nat \<Rightarrow> nat \<Rightarrow> nat \<Rightarrow> bool" where
  "is_least_multiple k s r \<longleftrightarrow> k dvd r \<and> s \<le> r \<and> (\<forall>m. k dvd m \<and> s \<le> m \<longrightarrow> r \<le> m)"

subsection \<open>Auxiliary notions for the allocator's properties\<close>

text \<open>
  \<open>aa_at ds i\<close> is \<open>amount_allocated\<close> of device \<open>i\<close> as \<open>get_stats_for_device\<close> would
  read it; \<open>aa_ext st st'\<close> says that \<open>st'\<close> has at least the entries of \<open>st\<close> and the same
  \<open>amount_allocated\<close> everywhere.
\<close>

definition aa_at :: "DeviceStats list \<Rightarrow> nat \<Rightarrow> 64 word" where
  "aa_at ds i = (if i < length ds then amount_allocated (ds ! i) else 0)"

definition aa_ext :: "THCCachingAllocator \<Rightarrow> THCCachingAllocator \<Rightarrow> bool" where
  "aa_ext st st' \<longleftrightarrow>
     length (device_stats st) \<le> length (device_stats st') \<and>
     (\<forall>i. aa_at (device_stats st') i = aa_at (device_stats st) i)"

text \<open>The event calls \<open>insert_events\<close> makes all succeed.\<close>

definition event_calls_succeed :: "cuda_runtime \<Rightarrow> bool" where
  "event_calls_succeed rt \<longleftrightarrow>
     getDevice_status rt = cudaSuccess \<and> eventCreate_status rt = cudaSuccess \<and>
     (\<forall>d. setDevice_status rt d = cudaSuccess) \<and> (\<forall>e. eventRecord_status rt e = cudaSuccess)"

text \<open>Two elements a \<open>std::set\<close> with \<open>BlockComparator\<close> cannot hold together.\<close>

definition equivalent_blocks :: "Block \<Rightarrow> Block \<Rightarrow> bool" where
  "equivalent_blocks a b \<longleftrightarrow> \<not> BlockComparator a b \<and> \<not> BlockComparator b a"

text \<open>
  A runtime for the examples: device 0, every call succeeds, every event has completed,
  and \<open>cudaMalloc\<close> hands out the addresses 4096 and 8388608.
\<close>

definition example_runtime :: cuda_runtime where
  "example_runtime =
     \<lparr>current_device = 0, getDevice_status = cudaSuccess, setDevice_status = (\<lambda>_. cudaSuccess),
      malloc_results = [(cudaSuccess, 4096), (cudaSuccess, 8388608)],
      free_status = (\<lambda>_. cudaSuccess), memGetInfo_status = cudaSuccess, memGetInfo_free = 0,
      memGetInfo_total = 0, eventCreate_status = cudaSuccess, next_event = 0,
      eventRecord_status = (\<lambda>_. cudaSuccess), eventQuery_status = (\<lambda>_. cudaSuccess),
      eventDestroy_status = (\<lambda>_. cudaSuccess)\<rparr>"

text \<open>An allocator holding one unsplit block: a slab of \<open>sz\<close> bytes at address 4096.\<close>

definition example_slab :: "size_t \<Rightarrow> THCCachingAllocator" where
  "example_slab sz = snd (new_Block (Block_init 0 7 sz 4096) THCCachingAllocator_init)"

text \<open>
  An allocator with one cached block: 3 MiB were allocated on the empty allocator and
  freed again, so the large pool holds an unsplit block of 3 MiB at address 4096.
\<close>

definition example_cached :: THCCachingAllocator where
  "example_cached =
     snd (projr (free example_runtime
       (snd (snd (projr (malloc example_runtime THCCachingAllocator_init 3145728 7)))) 4096))"

text \<open>
  Two allocations on two devices: 100 bytes on device 0 on the empty allocator, then,
  with device 1 current, 100 bytes on device 1.
\<close>

definition example_after_malloc :: THCCachingAllocator where
  "example_after_malloc = snd (snd (projr (malloc example_runtime THCCachingAllocator_init 100 7)))"

definition example_runtime_1 :: cuda_runtime where
  "example_runtime_1 = example_runtime\<lparr>current_device := 1, malloc_results := [(cudaSuccess, 8388608)]\<rparr>"

definition example_other_device :: THCCachingAllocator where
  "example_other_device = snd (snd (projr (malloc example_runtime_1 example_after_malloc 100 7)))"

text \<open>
  A use on another stream: after the allocation of 100 bytes on stream 7, the pointer is
  recorded as used on a stream object of CUDA stream 9.
\<close>

definition example_stream :: THCStream where
  "example_stream = \<lparr>THCStream_addr = 64, THCStream_device = 0, THCStream_stream = 9\<rparr>"

definition example_recorded :: THCCachingAllocator where
  "example_recorded = projr (recordStream example_after_malloc 4096 example_stream)"

section \<open>The IR (torch/csrc/jit/ir.cpp)\<close>

subsection \<open>Topological positions\<close>

text \<open>
  \<open>topo_position_t\<close> is \<open>int64_t\<close>, modelled as \<open>int\<close>. Every sum or difference the
  code guards stays in range; the one unguarded difference, in the midpoint, is wrapped
  to 64 bits (\<open>wrap64\<close>), and \<open>/\<close> truncates towards zero as in C++ (\<open>cdiv\<close>).
\<close>

type_synonym topo_position_t = int

definition kLowerBound :: topo_position_t where
  "kLowerBound = - (2 ^ 63)"

definition kUpperBound :: topo_position_t where
  "kUpperBound = 2 ^ 63 - 1"

definition kMidPoint :: topo_position_t where
  "kMidPoint = 0"

definition kAppendInterval :: topo_position_t where
  "kAppendInterval = 1099511627776"

definition wrap64 :: "int \<Rightarrow> int" where
  "wrap64 x = (x + 2 ^ 63) mod 2 ^ 64 - 2 ^ 63"

definition cdiv :: "int \<Rightarrow> int \<Rightarrow> int" where
  "cdiv a b = sgn a * sgn b * (\<bar>a\<bar> div \<bar>b\<bar>)"

subsection \<open>Graph, Block, Node, Value\<close>

text \<open>
  Nodes, values and blocks live in three stores of the graph, addressed by \<open>nat\<close>;
  \<open>None\<close> is \<open>nullptr\<close>. \<open>next_in_graph[kNextDirection]\<close> and
  \<open>next_in_graph[kPrevDirection]\<close> are the fields \<open>n_next\<close> and \<open>n_prev\<close>.
  The structs are declared in ir.h; the fields are the ones ir.cpp reads and writes.
\<close>

type_synonym node_ptr = nat
type_synonym value_ptr = nat
type_synonym blk_ptr = nat

datatype NodeKind =
    prim_Param | prim_Return | prim_If | prim_Loop | prim_FusionGroup
  | prim_DifferentiableGraph | prim_Constant | prim_ListConstruct | prim_TupleConstruct
  | prim_Undefined | prim_FusedConcat | prim_TupleUnpack | prim_TupleIndex | prim_TupleSlice
  | prim_ListUnpack | prim_PythonOp | prim_ConstantChunk
  | aten_add | aten_sub | aten_mul | aten_div
  | OtherKind string

record Use =
  use_user :: node_ptr
  use_offset :: "64 word"

record Value =
  v_node :: node_ptr
  v_offset :: "64 word"
  v_uses :: "Use list"
  v_unique_name :: string

record Node =
  n_kind :: NodeKind
  n_inputs :: "value_ptr option list"
  n_outputs :: "value_ptr list"
  n_blocks :: "blk_ptr list"
  owning_block :: "blk_ptr option"
  n_next :: "node_ptr option"
  n_prev :: "node_ptr option"
  n_schema :: "nat option"
  topo_position :: topo_position_t

record jit_Block =
  blk_output :: node_ptr
  blk_input :: node_ptr
  owning_node :: "node_ptr option"

record Graph =
  all_nodes :: "node_ptr set"
  all_values :: "value_ptr set"
  all_blocks :: "blk_ptr set"
  unique_names :: "string \<rightharpoonup> value_ptr"
  root_block :: blk_ptr
  node_at :: "node_ptr \<Rightarrow> Node"
  value_at :: "value_ptr \<Rightarrow> Value"
  block_at :: "blk_ptr \<Rightarrow> jit_Block"
  fresh_node :: node_ptr
  fresh_value :: value_ptr
  fresh_block :: blk_ptr

datatype MoveSide = BEFORE | AFTER

datatype Direction = kNextDirection | kPrevDirection

text \<open>
  A failed \<open>JIT_ASSERT\<close> or \<open>AT_ASSERT\<close> throws; following a null pointer crashes; a walk
  of a linked sequence that takes more steps than there are objects has entered a
  cycle and never returns (\<open>Diverges\<close>).
\<close>

datatype ir_error = AssertFailed | NullPointer | Diverges

definition ebind :: "'e + 'a \<Rightarrow> ('a \<Rightarrow> 'e + 'b) \<Rightarrow> 'e + 'b" where
  "ebind m f = (case m of Inl e \<Rightarrow> Inl e | Inr x \<Rightarrow> f x)"

definition JIT_ASSERT :: "bool \<Rightarrow> ir_error + unit" where
  "JIT_ASSERT c = (if c then Inr () else Inl AssertFailed)"

definition deref :: "'a option \<Rightarrow> ir_error + 'a" where
  "deref p = (case p of None \<Rightarrow> Inl NullPointer | Some x \<Rightarrow> Inr x)"

definition update_node :: "node_ptr \<Rightarrow> (Node \<Rightarrow> Node) \<Rightarrow> Graph \<Rightarrow> Graph" where
  "update_node n f g = g\<lparr>node_at := (node_at g)(n := f (node_at g n))\<rparr>"

definition update_value :: "value_ptr \<Rightarrow> (Value \<Rightarrow> Value) \<Rightarrow> Graph \<Rightarrow> Graph" where
  "update_value v f g = g\<lparr>value_at := (value_at g)(v := f (value_at g v))\<rparr>"

definition next_in_graph :: "Graph \<Rightarrow> node_ptr \<Rightarrow> Direction \<Rightarrow> node_ptr option" where
  "next_in_graph g n d = (case d of kNextDirection \<Rightarrow> n_next (node_at g n) | kPrevDirection \<Rightarrow> n_prev (node_at g n))"

text \<open>
  Modelled from the spec: \<open>Node::inBlockList\<close>, \<open>Block::appendNode\<close>, the constructors
  of \<open>Value\<close> and \<open>Graph\<close> and \<open>Block::initOutput\<close> are defined in ir.h, which is not
  under src/. A node is placed when it is linked into a block's sequence; an unplaced
  node has both links null. A block's sequence is circular through its return node,
  which is the sentinel \<open>nodes()\<close> stops at; appending splices the node in immediately
  before the return node. A new value has no uses and no name.
\<close>

definition inBlockList :: "Graph \<Rightarrow> node_ptr \<Rightarrow> ir_error + bool" where
  "inBlockList g n =
     (if n_next (node_at g n) = None
      then ebind (JIT_ASSERT (n_prev (node_at g n) = None)) (\<lambda>_. Inr False)
      else Inr True)"

definition initOutput :: "node_ptr \<Rightarrow> Graph \<Rightarrow> Graph" where
  "initOutput p g = update_node p (\<lambda>n. n\<lparr>n_next := Some p, n_prev := Some p\<rparr>) g"

definition new_Value :: "node_ptr \<Rightarrow> 64 word \<Rightarrow> Graph \<Rightarrow> value_ptr \<times> Graph" where
  "new_Value n off g =
     (fresh_value g,
      g\<lparr>value_at := (value_at g)(fresh_value g :=
            \<lparr>v_node = n, v_offset = off, v_uses = [], v_unique_name = []\<rparr>),
        all_values := insert (fresh_value g) (all_values g),
        fresh_value := Suc (fresh_value g)\<rparr>)"

subsection \<open>Creating nodes\<close>

definition new_Node :: "NodeKind \<Rightarrow> Graph \<Rightarrow> node_ptr \<times> Graph" where
  "new_Node k g =
     (fresh_node g,
      g\<lparr>node_at := (node_at g)(fresh_node g :=
            \<lparr>n_kind = k, n_inputs = [], n_outputs = [], n_blocks = [], owning_block = None,
             n_next = None, n_prev = None, n_schema = None, topo_position = 0\<rparr>),
        all_nodes := insert (fresh_node g) (all_nodes g),
        fresh_node := Suc (fresh_node g)\<rparr>)"

definition addOutput :: "node_ptr \<Rightarrow> Graph \<Rightarrow> value_ptr \<times> Graph" where
  "addOutput n g =
     (let (v, g1) = new_Value n (of_nat (length (n_outputs (node_at g n)))) g;
          g2 = update_node n (\<lambda>x. x\<lparr>n_outputs := n_outputs x @ [v]\<rparr>) g1;
          g3 = update_node n (\<lambda>x. x\<lparr>n_schema := None\<rparr>) g2
      in (v, g3))"

fun addOutputs :: "nat \<Rightarrow> node_ptr \<Rightarrow> Graph \<Rightarrow> Graph" where
  "addOutputs 0 n g = g"
| "addOutputs (Suc k) n g = addOutputs k n (snd (addOutput n g))"

definition create :: "NodeKind \<Rightarrow> nat \<Rightarrow> Graph \<Rightarrow> node_ptr \<times> Graph" where
  "create k num_outputs g =
     (let (n, g1) = new_Node k g in (n, addOutputs num_outputs n g1))"

text \<open>\<open>Block::Block(graph, node)\<close>, and the empty graph that \<open>Graph::Graph\<close> builds from it.\<close>

definition new_Block_ir :: "node_ptr option \<Rightarrow> Graph \<Rightarrow> blk_ptr \<times> Graph" where
  "new_Block_ir owner g =
     (let b = fresh_block g;
          (out, g1) = create prim_Return 0 g;
          g2 = initOutput out g1;
          (inp, g3) = create prim_Param 0 g2;
          g4 = g3\<lparr>block_at := (block_at g3)(b :=
                  \<lparr>blk_output = out, blk_input = inp, owning_node = owner\<rparr>),
                all_blocks := insert b (all_blocks g3),
                fresh_block := Suc b\<rparr>;
          g5 = update_node out (\<lambda>x. x\<lparr>owning_block := Some b\<rparr>) g4;
          g6 = update_node out (\<lambda>x. x\<lparr>topo_position := kUpperBound\<rparr>) g5;
          g7 = update_node inp (\<lambda>x. x\<lparr>owning_block := Some b\<rparr>) g6;
          g8 = update_node inp (\<lambda>x. x\<lparr>topo_position := kLowerBound\<rparr>) g7
      in (b, g8))"

definition no_Node :: Node where
  "no_Node = \<lparr>n_kind = prim_Undefined, n_inputs = [], n_outputs = [], n_blocks = [],
             owning_block = None, n_next = None, n_prev = None, n_schema = None,
             topo_position = 0\<rparr>"

definition empty_Graph :: Graph where
  "empty_Graph =
     (let g0 = \<lparr>all_nodes = {}, all_values = {}, all_blocks = {}, unique_names = Map.empty,
                root_block = 0, node_at = (\<lambda>_. no_Node),
                value_at = (\<lambda>_. \<lparr>v_node = 0, v_offset = 0, v_uses = [], v_unique_name = []\<rparr>),
                block_at = (\<lambda>_. \<lparr>blk_output = 0, blk_input = 0, owning_node = None\<rparr>),
                fresh_node = 0, fresh_value = 0, fresh_block = 0\<rparr>;
          (b, g1) = new_Block_ir None g0
      in g1\<lparr>root_block := b\<rparr>)"

subsection \<open>Outputs\<close>

text \<open>\<open>Graph::freeValue\<close>; its call \<open>setUniqueName("")\<close> only clears the value's name.\<close>

definition clearUniqueName :: "value_ptr \<Rightarrow> Graph \<Rightarrow> Graph" where
  "clearUniqueName v g =
     (if v_unique_name (value_at g v) \<noteq> []
      then update_value v (\<lambda>x. x\<lparr>v_unique_name := []\<rparr>)
             (g\<lparr>unique_names := (unique_names g)(v_unique_name (value_at g v) := None)\<rparr>)
      else g)"

definition freeValue :: "value_ptr \<Rightarrow> Graph \<Rightarrow> ir_error + Graph" where
  "freeValue v g =
     (let g1 = clearUniqueName v g
      in ebind (JIT_ASSERT (v \<in> all_values g1))
           (\<lambda>_. Inr (g1\<lparr>all_values := all_values g1 - {v}\<rparr>)))"

definition eraseOutput :: "node_ptr \<Rightarrow> nat \<Rightarrow> Graph \<Rightarrow> ir_error + Graph" where
  "eraseOutput this i g =
     ebind (JIT_ASSERT (i < length (n_outputs (node_at g this)))) (\<lambda>_.
     ebind (JIT_ASSERT (v_uses (value_at g (n_outputs (node_at g this) ! i)) = [])) (\<lambda>_.
       let g1 = update_node this (\<lambda>x. x\<lparr>n_schema := None\<rparr>) g;
           n = n_outputs (node_at g1 this) ! i;
           g2 = update_node this
                  (\<lambda>x. x\<lparr>n_outputs := take i (n_outputs x) @ drop (Suc i) (n_outputs x)\<rparr>) g1
       in ebind (freeValue n g2) (\<lambda>g3.
            Inr (fold (\<lambda>j h. update_value (n_outputs (node_at h this) ! j)
                                (\<lambda>x. x\<lparr>v_offset := v_offset x - 1\<rparr>) h)
                   [i ..< length (n_outputs (node_at g3 this))] g3))))"

subsection \<open>The topological index\<close>

text \<open>
  \<open>Block::reIndexTopology\<close> walks \<open>nodes()\<close>: from the node after the return node until
  the return node comes up again. The fuel is the number of nodes ever created.
\<close>

fun reIndex_loop :: "nat \<Rightarrow> node_ptr \<Rightarrow> node_ptr \<Rightarrow> topo_position_t \<Rightarrow> Graph \<Rightarrow> ir_error + Graph" where
  "reIndex_loop 0 ret node curPos g = (if node = ret then Inr g else Inl Diverges)"
| "reIndex_loop (Suc fuel) ret node curPos g =
     (if node = ret then Inr g
      else
        ebind (JIT_ASSERT (curPos \<le> kUpperBound - kAppendInterval)) (\<lambda>_.
          let curPos' = curPos + kAppendInterval;
              g1 = update_node node (\<lambda>x. x\<lparr>topo_position := curPos'\<rparr>) g
          in ebind (deref (n_next (node_at g1 node))) (\<lambda>nx. reIndex_loop fuel ret nx curPos' g1)))"

definition reIndexTopology :: "blk_ptr \<Rightarrow> Graph \<Rightarrow> ir_error + Graph" where
  "reIndexTopology b g =
     ebind (deref (n_next (node_at g (blk_output (block_at g b))))) (\<lambda>first.
       reIndex_loop (fresh_node g) (blk_output (block_at g b)) first kLowerBound g)"

definition assignTopoPosition :: "node_ptr \<Rightarrow> Graph \<Rightarrow> ir_error + Graph" where
  "assignTopoPosition this g =
     ebind (deref (owning_block (node_at g this))) (\<lambda>blk.
     ebind (deref (n_prev (node_at g this))) (\<lambda>prv.
     ebind (deref (n_next (node_at g this))) (\<lambda>nxt.
       let returnNode = blk_output (block_at g blk);
           prevPos = topo_position (node_at g prv);
           nextPos = topo_position (node_at g nxt)
       in if nxt = returnNode then
            if nxt = prv then Inr (update_node this (\<lambda>x. x\<lparr>topo_position := kMidPoint\<rparr>) g)
            else if prevPos \<ge> kUpperBound - kAppendInterval then reIndexTopology blk g
            else Inr (update_node this (\<lambda>x. x\<lparr>topo_position := prevPos + kAppendInterval\<rparr>) g)
          else if prv = returnNode then
            if nextPos \<le> kLowerBound + kAppendInterval then reIndexTopology blk g
            else Inr (update_node this (\<lambda>x. x\<lparr>topo_position := nextPos - kAppendInterval\<rparr>) g)
          else
            let posBetween = wrap64 (prevPos + cdiv (wrap64 (nextPos - prevPos)) 2)
            in if posBetween = prevPos then reIndexTopology blk g
               else Inr (update_node this (\<lambda>x. x\<lparr>topo_position := posBetween\<rparr>) g))))"

subsection \<open>Placing and removing nodes\<close>

definition insertAfter :: "node_ptr \<Rightarrow> node_ptr \<Rightarrow> Graph \<Rightarrow> ir_error + Graph" where
  "insertAfter this n g =
     ebind (inBlockList g this) (\<lambda>placed.
     ebind (inBlockList g n) (\<lambda>n_placed.
     ebind (JIT_ASSERT (\<not> placed \<and> n_placed)) (\<lambda>_.
     ebind (JIT_ASSERT (owning_block (node_at g n) \<noteq> None)) (\<lambda>_.
       let g1 = update_node this (\<lambda>x. x\<lparr>owning_block := owning_block (node_at g n)\<rparr>) g
       in ebind (deref (n_next (node_at g1 n))) (\<lambda>nxt.
            let g2 = update_node n (\<lambda>x. x\<lparr>n_next := Some this\<rparr>) g1;
                g3 = update_node this (\<lambda>x. x\<lparr>n_prev := Some n\<rparr>) g2;
                g4 = update_node this (\<lambda>x. x\<lparr>n_next := Some nxt\<rparr>) g3;
                g5 = update_node nxt (\<lambda>x. x\<lparr>n_prev := Some this\<rparr>) g4
            in assignTopoPosition this g5)))))"

definition insertBefore :: "node_ptr \<Rightarrow> node_ptr \<Rightarrow> Graph \<Rightarrow> ir_error + Graph" where
  "insertBefore this n g =
     ebind (inBlockList g n) (\<lambda>n_placed.
     ebind (JIT_ASSERT n_placed) (\<lambda>_.
     ebind (deref (n_prev (node_at g n))) (\<lambda>prv. insertAfter this prv g)))"

definition appendNode :: "blk_ptr \<Rightarrow> node_ptr \<Rightarrow> Graph \<Rightarrow> ir_error + Graph" where
  "appendNode b n g =
     ebind (inBlockList g n) (\<lambda>placed.
     ebind (JIT_ASSERT (\<not> placed)) (\<lambda>_. insertBefore n (blk_output (block_at g b)) g))"

definition removeFromList :: "node_ptr \<Rightarrow> Graph \<Rightarrow> ir_error + Graph" where
  "removeFromList this g =
     ebind (inBlockList g this) (\<lambda>placed.
     ebind (JIT_ASSERT placed) (\<lambda>_.
       let g1 = update_node this (\<lambda>x. x\<lparr>owning_block := None\<rparr>) g
       in ebind (deref (n_next (node_at g1 this))) (\<lambda>nxt.
          ebind (deref (n_prev (node_at g1 this))) (\<lambda>prv.
            let g2 = update_node prv (\<lambda>x. x\<lparr>n_next := Some nxt\<rparr>) g1;
                g3 = update_node nxt (\<lambda>x. x\<lparr>n_prev := Some prv\<rparr>) g2;
                g4 = update_node this (\<lambda>x. x\<lparr>n_next := None\<rparr>) g3;
                g5 = update_node this (\<lambda>x. x\<lparr>n_prev := None\<rparr>) g4
            in Inr g5))))"

definition moveAfter :: "node_ptr \<Rightarrow> node_ptr \<Rightarrow> Graph \<Rightarrow> ir_error + Graph" where
  "moveAfter this n g = ebind (removeFromList this g) (insertAfter this n)"

definition moveBefore :: "node_ptr \<Rightarrow> node_ptr \<Rightarrow> Graph \<Rightarrow> ir_error + Graph" where
  "moveBefore this n g = ebind (removeFromList this g) (insertBefore this n)"

definition move :: "node_ptr \<Rightarrow> node_ptr \<Rightarrow> MoveSide \<Rightarrow> Graph \<Rightarrow> ir_error + Graph" where
  "move this movePoint moveSide g =
     (case moveSide of
        BEFORE \<Rightarrow> moveBefore this movePoint g
      | AFTER \<Rightarrow> moveAfter this movePoint g)"

subsection \<open>Ordering queries\<close>

text \<open>
  \<open>Node::isAfter\<close>: the two loops climb the chains of owning blocks; the model has one
  graph, so the assertion on the owning graphs holds. On a common block the recursive
  call compares the positions.
\<close>

fun isAfter_rhs :: "nat \<Rightarrow> Graph \<Rightarrow> node_ptr \<Rightarrow> node_ptr option \<Rightarrow> ir_error + bool option" where
  "isAfter_rhs fuel g lhs None = Inr None"
| "isAfter_rhs 0 g lhs (Some rhs) = Inl Diverges"
| "isAfter_rhs (Suc fuel) g lhs (Some rhs) =
     (case owning_block (node_at g rhs) of
        None \<Rightarrow> Inl AssertFailed
      | Some rb \<Rightarrow>
          if owning_block (node_at g lhs) = Some rb
          then Inr (Some (topo_position (node_at g lhs) > topo_position (node_at g rhs)))
          else isAfter_rhs fuel g lhs (owning_node (block_at g rb)))"

fun isAfter_lhs :: "nat \<Rightarrow> Graph \<Rightarrow> node_ptr option \<Rightarrow> node_ptr \<Rightarrow> ir_error + bool" where
  "isAfter_lhs fuel g None n = Inl AssertFailed"
| "isAfter_lhs 0 g (Some lhs) n = Inl Diverges"
| "isAfter_lhs (Suc fuel) g (Some lhs) n =
     (case owning_block (node_at g lhs) of
        None \<Rightarrow> Inl AssertFailed
      | Some lb \<Rightarrow>
          ebind (isAfter_rhs (fresh_node g) g lhs (Some n)) (\<lambda>r.
            case r of
              Some res \<Rightarrow> Inr res
            | None \<Rightarrow> isAfter_lhs fuel g (owning_node (block_at g lb)) n))"

definition isAfter :: "Graph \<Rightarrow> node_ptr \<Rightarrow> node_ptr \<Rightarrow> ir_error + bool" where
  "isAfter g this n =
     (if owning_block (node_at g this) = owning_block (node_at g n)
      then Inr (topo_position (node_at g this) > topo_position (node_at g n))
      else isAfter_lhs (fresh_node g) g (Some this) n)"

definition isBefore :: "Graph \<Rightarrow> node_ptr \<Rightarrow> node_ptr \<Rightarrow> ir_error + bool" where
  "isBefore g this n =
     (if this = n then Inr False else ebind (isAfter g this n) (\<lambda>a. Inr (\<not> a)))"

subsection \<open>Inputs\<close>

definition addInput :: "node_ptr \<Rightarrow> value_ptr \<Rightarrow> Graph \<Rightarrow> Graph" where
  "addInput this v g =
     (let g1 = update_node this (\<lambda>x. x\<lparr>n_schema := None\<rparr>) g;
          g2 = update_value v
                 (\<lambda>x. x\<lparr>v_uses := v_uses x @
                     [\<lparr>use_user = this, use_offset = of_nat (length (n_inputs (node_at g1 this)))\<rparr>]\<rparr>) g1
      in update_node this (\<lambda>x. x\<lparr>n_inputs := n_inputs x @ [Some v]\<rparr>) g2)"

subsection \<open>Topologically valid moves\<close>

text \<open>
  The \<open>WorkingSet\<close> of \<open>tryMove\<close>. An \<open>unordered_set<Node*>\<close> is a list without
  repetitions; \<open>users_\<close> maps a user to the number of working-set nodes it uses.
\<close>

record WorkingSet =
  ws_nodes :: "node_ptr list"
  ws_users :: "node_ptr \<rightharpoonup> nat"

fun climb :: "nat \<Rightarrow> Graph \<Rightarrow> node_ptr \<Rightarrow> node_ptr \<Rightarrow> ir_error + node_ptr" where
  "climb 0 g n curNode =
     (if owning_block (node_at g curNode) = owning_block (node_at g n) then Inr curNode
      else Inl Diverges)"
| "climb (Suc fuel) g n curNode =
     (if owning_block (node_at g curNode) = owning_block (node_at g n) then Inr curNode
      else
        ebind (deref (owning_block (node_at g curNode))) (\<lambda>b.
          case owning_node (block_at g b) of
            None \<Rightarrow> Inl AssertFailed
          | Some up \<Rightarrow> climb fuel g n up))"

fun users_loop :: "Graph \<Rightarrow> node_ptr \<Rightarrow> Use list \<Rightarrow> node_ptr list \<Rightarrow> ir_error + node_ptr list" where
  "users_loop g n [] users = Inr users"
| "users_loop g n (u # us) users =
     (if owning_block (node_at g (use_user u)) = owning_block (node_at g n)
      then users_loop g n us (List.insert (use_user u) users)
      else
        ebind (climb (fresh_node g) g n (use_user u)) (\<lambda>curNode.
          users_loop g n us (List.insert curNode users)))"

definition getUsersSameBlock :: "Graph \<Rightarrow> node_ptr \<Rightarrow> ir_error + node_ptr list" where
  "getUsersSameBlock g n =
     users_loop g n (concat (map (\<lambda>output. v_uses (value_at g output)) (n_outputs (node_at g n)))) []"

definition ws_add :: "Graph \<Rightarrow> WorkingSet \<Rightarrow> node_ptr \<Rightarrow> ir_error + WorkingSet" where
  "ws_add g ws n =
     ebind (getUsersSameBlock g n) (\<lambda>users.
       Inr \<lparr>ws_nodes = ws_nodes ws @ [n],
            ws_users = fold (\<lambda>u m. m(u \<mapsto> (case m u of None \<Rightarrow> 0 | Some c \<Rightarrow> c) + 1))
                         users (ws_users ws)\<rparr>)"

definition WorkingSet_init :: "Graph \<Rightarrow> node_ptr \<Rightarrow> ir_error + WorkingSet" where
  "WorkingSet_init g mover = ws_add g \<lparr>ws_nodes = [], ws_users = Map.empty\<rparr> mover"

definition eraseMover :: "Graph \<Rightarrow> WorkingSet \<Rightarrow> ir_error + WorkingSet" where
  "eraseMover g ws =
     (case ws_nodes ws of
        [] \<Rightarrow> Inl NullPointer
      | mover # rest \<Rightarrow>
          ebind (getUsersSameBlock g mover) (\<lambda>users.
            Inr \<lparr>ws_nodes = rest,
                 ws_users = fold (\<lambda>u m. case m u of
                                           None \<Rightarrow> m(u \<mapsto> 0)
                                         | Some c \<Rightarrow> if c = 1 then m(u := None) else m)
                              users (ws_users ws)\<rparr>))"

definition producesFor :: "WorkingSet \<Rightarrow> node_ptr \<Rightarrow> bool" where
  "producesFor ws n \<longleftrightarrow> ws_users ws n \<noteq> None"

definition consumesFrom :: "Graph \<Rightarrow> WorkingSet \<Rightarrow> node_ptr \<Rightarrow> ir_error + bool" where
  "consumesFrom g ws n =
     ebind (getUsersSameBlock g n) (\<lambda>users.
       Inr (list_ex (\<lambda>node. List.member users node) (ws_nodes ws)))"

definition dependsOn :: "Graph \<Rightarrow> WorkingSet \<Rightarrow> node_ptr \<Rightarrow> ir_error + bool" where
  "dependsOn g ws n =
     (case ws_nodes ws of
        [] \<Rightarrow> Inr False
      | front # _ \<Rightarrow>
          ebind (isAfter g n front) (\<lambda>after.
            if after then Inr (producesFor ws n) else consumesFrom g ws n))"

text \<open>The scan of \<open>tryMove\<close> from \<open>this\<close> towards \<open>movePoint\<close>, one node at a time.\<close>

fun tryMove_scan ::
  "nat \<Rightarrow> Graph \<Rightarrow> Direction \<Rightarrow> node_ptr \<Rightarrow> WorkingSet \<Rightarrow> node_ptr option \<Rightarrow> ir_error + WorkingSet" where
  "tryMove_scan fuel g direction movePoint ws None = Inl NullPointer"
| "tryMove_scan 0 g direction movePoint ws (Some curNode) =
     (if curNode = movePoint then Inr ws else Inl Diverges)"
| "tryMove_scan (Suc fuel) g direction movePoint ws (Some curNode) =
     (if curNode = movePoint then Inr ws
      else
        ebind (dependsOn g ws curNode) (\<lambda>dep.
        ebind (if dep then ws_add g ws curNode else Inr ws) (\<lambda>ws1.
          tryMove_scan fuel g direction movePoint ws1 (next_in_graph g curNode direction))))"

fun move_all :: "MoveSide \<Rightarrow> node_ptr list \<Rightarrow> node_ptr \<Rightarrow> Graph \<Rightarrow> ir_error + Graph" where
  "move_all moveSide [] curNode g = Inr g"
| "move_all moveSide (toMove # rest) curNode g =
     ebind (move toMove curNode moveSide g) (move_all moveSide rest toMove)"

definition tryMove :: "Graph \<Rightarrow> node_ptr \<Rightarrow> node_ptr \<Rightarrow> MoveSide \<Rightarrow> ir_error + (bool \<times> Graph)" where
  "tryMove g this movePoint moveSide =
     ebind (inBlockList g this) (\<lambda>placed.
     ebind (inBlockList g movePoint) (\<lambda>mp_placed.
     ebind (JIT_ASSERT (placed \<and> mp_placed)) (\<lambda>_.
     ebind (JIT_ASSERT (owning_block (node_at g this) = owning_block (node_at g movePoint))) (\<lambda>_.
       if this = movePoint then Inr (True, g)
       else
         ebind (WorkingSet_init g this) (\<lambda>ws0.
         ebind (isAfter g this movePoint) (\<lambda>after.
           let direction = (if after then kPrevDirection else kNextDirection)
           in ebind (tryMove_scan (fresh_node g) g direction movePoint ws0
                       (next_in_graph g this direction)) (\<lambda>ws1.
              ebind (case moveSide of
                       BEFORE \<Rightarrow> isBefore g this movePoint
                     | AFTER \<Rightarrow> isAfter g this movePoint) (\<lambda>splitThisAndDeps.
              ebind (if splitThisAndDeps then eraseMover g ws1 else Inr ws1) (\<lambda>ws2.
              ebind (dependsOn g ws2 movePoint) (\<lambda>blocked.
                if blocked then Inr (False, g)
                else if splitThisAndDeps then
                  ebind (move this movePoint moveSide g) (\<lambda>g1.
                  ebind (move_all (case moveSide of BEFORE \<Rightarrow> AFTER | AFTER \<Rightarrow> BEFORE)
                           (ws_nodes ws2) movePoint g1) (\<lambda>g2. Inr (True, g2)))
                else
                  ebind (move_all moveSide (ws_nodes ws2) movePoint g) (\<lambda>g2. Inr (True, g2))))))))))))"

definition moveAfterTopologicallyValid :: "Graph \<Rightarrow> node_ptr \<Rightarrow> node_ptr \<Rightarrow> ir_error + (bool \<times> Graph)" where
  "moveAfterTopologicallyValid g this n = tryMove g this n AFTER"

definition moveBeforeTopologicallyValid :: "Graph \<Rightarrow> node_ptr \<Rightarrow> node_ptr \<Rightarrow> ir_error + (bool \<times> Graph)" where
  "moveBeforeTopologicallyValid g this n = tryMove g this n BEFORE"

subsection \<open>The scenario "append and index"\<close>

text \<open>
  Create a node with one output and append it to the root block, \<open>k\<close> times over; the
  result lists the nodes in the order they were appended.
\<close>

definition append_new_node :: "Graph \<Rightarrow> ir_error + (node_ptr \<times> Graph)" where
  "append_new_node g =
     (let (n, g1) = create prim_Undefined 1 g
      in ebind (appendNode (root_block g1) n g1) (\<lambda>g2. Inr (n, g2)))"

fun append_nodes :: "nat \<Rightarrow> Graph \<Rightarrow> ir_error + (node_ptr list \<times> Graph)" where
  "append_nodes 0 g = Inr ([], g)"
| "append_nodes (Suc k) g =
     ebind (append_nodes k g) (\<lambda>(ns, g1).
       ebind (append_new_node g1) (\<lambda>(n, g2). Inr (ns @ [n], g2)))"

text \<open>
  \<open>appended g ns\<close>: the root block of \<open>g\<close> ends with the nodes \<open>ns\<close> appended in this
  order, the \<open>k\<close>-th of them (counting from 0) at position \<open>kMidPoint + kAppendInterval * k\<close>.
\<close>

definition appended :: "Graph \<Rightarrow> node_ptr list \<Rightarrow> bool" where
  "appended g ns \<longleftrightarrow>
     (let b = root_block g;
          ret = blk_output (block_at g b);
          l = (if ns = [] then ret else last ns)
      in ret < fresh_node g \<and>
         owning_block (node_at g ret) = Some b \<and>
         n_next (node_at g ret) \<noteq> None \<and>
         n_prev (node_at g ret) = Some l \<and>
         n_next (node_at g l) = Some ret \<and>
         owning_block (node_at g l) = Some b \<and>
         list_all (\<lambda>x. x < fresh_node g \<and> x \<noteq> ret) ns \<and>
         map (\<lambda>x. topo_position (node_at g x)) ns =
           map (\<lambda>k. kMidPoint + kAppendInterval * int k) [0 ..< length ns])"

text \<open>A graph holding one node with three outputs, not yet placed.\<close>

definition three_outputs :: "node_ptr \<times> Graph" where
  "three_outputs = create prim_Undefined 3 empty_Graph"

text \<open>
  The lint invariant on a node's outputs: the output at index \<open>j\<close> records offset \<open>j\<close>.
\<close>

definition offsets_match :: "Graph \<Rightarrow> node_ptr \<Rightarrow> bool" where
  "offsets_match g n \<longleftrightarrow>
     list_all (\<lambda>j. v_offset (value_at g (n_outputs (node_at g n) ! j)) = of_nat j)
       [0 ..< length (n_outputs (node_at g n))]"

section \<open>Types (aten/src/ATen/core/type.cpp)\<close>

text \<open>
  The kinds of \<open>Type\<close> that type.cpp prints and inspects. A tensor type carries its
  scalar type and its number of dimensions, a complete tensor type its scalar type,
  sizes and strides.
\<close>

datatype Type =
    DynamicType
  | TensorType nat nat
  | CompleteTensorType nat "int list" "int list"
  | UndefinedTensorType
  | NumberType
  | IntType
  | FloatType
  | BoolType
  | NoneType
  | StringType
  | GeneratorType
  | TupleType "Type list"
  | ListType Type
  | OptionalType Type
  | FutureType Type
  | VarType string



text \<open>
  A subtype relation for the examples: every type is below itself, the tensor types are
  below \<open>Dynamic\<close>, and \<open>T\<close> is below \<open>Optional[T]\<close>.
\<close>

definition subtype_example :: "Type \<Rightarrow> Type \<Rightarrow> bool" where
  "subtype_example a b \<longleftrightarrow>
     a = b \<or>
     (b = DynamicType \<and>
        (case a of TensorType _ _ \<Rightarrow> True | CompleteTensorType _ _ _ \<Rightarrow> True
         | UndefinedTensorType \<Rightarrow> True | _ \<Rightarrow> False)) \<or>
     b = OptionalType a"

section \<open>Alias analysis (torch/csrc/jit/passes/alias_analysis.cpp)\<close>

subsection \<open>AliasInfo\<close>

text \<open>
  An alias set is named by a symbol: \<open>alias::n\<close> for a number \<open>n\<close>, or the wildcard set
  \<open>alias::*\<close>.

  Modelled from the spec: class \<open>AliasInfo\<close> is declared in alias_info.h, which is not
  under src/. An \<open>AliasInfo\<close> carries a set of alias-set symbols, whether it is a write,
  and the infos of contained types; it is a wildcard when it holds the wildcard set.
  \<open>unionWith\<close> adds the other info's sets, \<open>isSubsetOf\<close> is set inclusion, and \<open>set()\<close>
  asserts that there is exactly one set and returns it.
\<close>

datatype Symbol = AliasSym nat | WildcardSym

datatype AliasInfo =
  AliasInfo (sets: "Symbol set") (isWrite: bool) (containedTypes: "AliasInfo list")

datatype alias_error = AssertionError | OutOfRange | ErrorReport | LoopDiverges

definition wildcardSet :: Symbol where
  "wildcardSet = WildcardSym"

definition createWildcard :: AliasInfo where
  "createWildcard = AliasInfo {wildcardSet} False []"

definition isWildcard :: "AliasInfo \<Rightarrow> bool" where
  "isWildcard a \<longleftrightarrow> wildcardSet \<in> sets a"

definition addSet :: "Symbol \<Rightarrow> AliasInfo \<Rightarrow> AliasInfo" where
  "addSet s a = AliasInfo (insert s (sets a)) (isWrite a) (containedTypes a)"

definition unionWith :: "AliasInfo \<Rightarrow> AliasInfo \<Rightarrow> AliasInfo" where
  "unionWith other a = AliasInfo (sets a \<union> sets other) (isWrite a) (containedTypes a)"

definition isSubsetOf :: "AliasInfo \<Rightarrow> AliasInfo \<Rightarrow> bool" where
  "isSubsetOf a other \<longleftrightarrow> sets a \<subseteq> sets other"

definition the_set :: "AliasInfo \<Rightarrow> alias_error + Symbol" where
  "the_set a = (if is_singleton (sets a) then Inr (the_elem (sets a)) else Inl AssertionError)"

subsection \<open>What the analysis reads of the graph\<close>

text \<open>
  The analysis reads a graph and never changes it: of a node its kind, inputs, outputs,
  blocks, \<open>Subgraph\<close> attribute and schema; of a block its inputs, nodes and outputs; of
  a value its type and, where that type (below an \<open>Optional\<close>) is a tuple type, the address
  \<open>tuple_type_ptr\<close> of the tuple type object. A \<open>FunctionSchema\<close> lists, for its arguments and for its returns,
  the alias annotation of each (or none), and says whether it is variadic.
\<close>

record FunctionSchema =
  arguments :: "AliasInfo option list"
  returns :: "AliasInfo option list"
  is_vararg :: bool
  is_varret :: bool

datatype NodeView =
  NodeView (nv_id: node_ptr) (nv_kind: NodeKind) (nv_inputs: "value_ptr list")
    (nv_outputs: "value_ptr list") (nv_blocks: "BlockView list")
    (nv_subgraph: "BlockView option") (nv_schema: "FunctionSchema option")
and BlockView =
  BlockView (bv_inputs: "value_ptr list") (bv_nodes: "NodeView list") (bv_outputs: "value_ptr list")

record GraphView =
  gv_block :: BlockView
  type_of :: "value_ptr \<Rightarrow> Type"
  tuple_type_ptr :: "value_ptr \<Rightarrow> nat"
  isSubtypeOf :: "Type \<Rightarrow> Type \<Rightarrow> bool"

subsection \<open>AliasDb\<close>

record AliasDb =
  latestSymbol :: nat
  valueToAlias :: "value_ptr \<rightharpoonup> AliasInfo"
  aliasToWrites :: "Symbol \<Rightarrow> node_ptr set"

definition AliasDb_init :: AliasDb where
  "AliasDb_init = \<lparr>latestSymbol = 0, valueToAlias = Map.empty, aliasToWrites = (\<lambda>_. {})\<rparr>"

fun shouldAnnotate_type :: "(Type \<Rightarrow> Type \<Rightarrow> bool) \<Rightarrow> Type \<Rightarrow> bool" where
  "shouldAnnotate_type sub (OptionalType t) =
     (sub (OptionalType t) DynamicType \<or> shouldAnnotate_type sub t)"
| "shouldAnnotate_type sub (ListType t) = True"
| "shouldAnnotate_type sub (TupleType ts) = True"
| "shouldAnnotate_type sub t = sub t DynamicType"

definition shouldAnnotate :: "GraphView \<Rightarrow> value_ptr \<Rightarrow> bool" where
  "shouldAnnotate gr v = shouldAnnotate_type (isSubtypeOf gr) (type_of gr v)"

definition getFreshAlias :: "AliasDb \<Rightarrow> Symbol \<times> AliasDb" where
  "getFreshAlias db = (AliasSym (latestSymbol db + 1), db\<lparr>latestSymbol := latestSymbol db + 1\<rparr>)"

text \<open>The three overloads of \<open>addAlias\<close>: an info, a symbol, the info of another value.\<close>

definition addAlias_info :: "GraphView \<Rightarrow> value_ptr \<Rightarrow> AliasInfo \<Rightarrow> AliasDb \<Rightarrow> AliasDb" where
  "addAlias_info gr v alias db =
     (if \<not> shouldAnnotate gr v then db
      else
        case valueToAlias db v of
          Some a \<Rightarrow> db\<lparr>valueToAlias := (valueToAlias db)(v \<mapsto> unionWith alias a)\<rparr>
        | None \<Rightarrow> db\<lparr>valueToAlias := (valueToAlias db)(v \<mapsto> alias)\<rparr>)"

definition addAlias_symbol :: "GraphView \<Rightarrow> value_ptr \<Rightarrow> Symbol \<Rightarrow> AliasDb \<Rightarrow> AliasDb" where
  "addAlias_symbol gr v alias db =
     (if \<not> shouldAnnotate gr v then db
      else
        case valueToAlias db v of
          Some a \<Rightarrow> db\<lparr>valueToAlias := (valueToAlias db)(v \<mapsto> addSet alias a)\<rparr>
        | None \<Rightarrow> db\<lparr>valueToAlias := (valueToAlias db)(v \<mapsto> addSet alias (AliasInfo {} False []))\<rparr>)"

definition addAlias_from :: "GraphView \<Rightarrow> value_ptr \<Rightarrow> value_ptr \<Rightarrow> AliasDb \<Rightarrow> alias_error + AliasDb" where
  "addAlias_from gr v from db =
     (if \<not> shouldAnnotate gr v
      then (if \<not> shouldAnnotate gr from then Inr db else Inl AssertionError)
      else
        case valueToAlias db from of
          None \<Rightarrow> Inl OutOfRange
        | Some a \<Rightarrow> Inr (addAlias_info gr v a db))"

fun mapAliases_loop :: "GraphView \<Rightarrow> value_ptr list \<Rightarrow> value_ptr list \<Rightarrow> AliasDb \<Rightarrow> alias_error + AliasDb" where
  "mapAliases_loop gr (t # to) (f # from) db =
     ebind (addAlias_from gr t f db) (mapAliases_loop gr to from)"
| "mapAliases_loop gr to from db = Inr db"

definition mapAliases :: "GraphView \<Rightarrow> value_ptr list \<Rightarrow> value_ptr list \<Rightarrow> AliasDb \<Rightarrow> alias_error + AliasDb" where
  "mapAliases gr to from db =
     (if length to \<noteq> length from then Inl AssertionError else mapAliases_loop gr to from db)"

definition giveFreshAlias :: "GraphView \<Rightarrow> value_ptr \<Rightarrow> AliasDb \<Rightarrow> AliasDb" where
  "giveFreshAlias gr v db =
     (if valueToAlias db v \<noteq> None then db
      else let (alias, db1) = getFreshAlias db in addAlias_symbol gr v alias db1)"

subsection \<open>Graph inputs\<close>

datatype TypeKind =
    DynamicTypeKind | TensorTypeKind | CompleteTensorTypeKind | UndefinedTensorTypeKind
  | NumberTypeKind | IntTypeKind | FloatTypeKind | BoolTypeKind | NoneTypeKind
  | StringTypeKind | GeneratorTypeKind | TupleTypeKind | ListTypeKind | OptionalTypeKind
  | FutureTypeKind | VarTypeKind

fun kind :: "Type \<Rightarrow> TypeKind" where
  "kind DynamicType = DynamicTypeKind"
| "kind (TensorType s d) = TensorTypeKind"
| "kind (CompleteTensorType s sizes strides) = CompleteTensorTypeKind"
| "kind UndefinedTensorType = UndefinedTensorTypeKind"
| "kind NumberType = NumberTypeKind"
| "kind IntType = IntTypeKind"
| "kind FloatType = FloatTypeKind"
| "kind BoolType = BoolTypeKind"
| "kind NoneType = NoneTypeKind"
| "kind StringType = StringTypeKind"
| "kind GeneratorType = GeneratorTypeKind"
| "kind (TupleType ts) = TupleTypeKind"
| "kind (ListType t) = ListTypeKind"
| "kind (OptionalType t) = OptionalTypeKind"
| "kind (FutureType t) = FutureTypeKind"
| "kind (VarType n) = VarTypeKind"

text \<open>
  The loop of \<open>analyze(graph)\<close> over the graph's inputs. \<open>listTypeAliases\<close> is keyed by the
  kind of the contained type, \<open>tupleTypeAliases\<close> by the pointer to the tuple type object.
\<close>

fun analyze_inputs ::
  "GraphView \<Rightarrow> Symbol \<Rightarrow> value_ptr list \<Rightarrow> (TypeKind \<rightharpoonup> Symbol) \<Rightarrow> (nat \<rightharpoonup> Symbol) \<Rightarrow>
   AliasDb \<Rightarrow> alias_error + AliasDb" where
  "analyze_inputs gr tensorAlias [] listTypeAliases tupleTypeAliases db = Inr db"
| "analyze_inputs gr tensorAlias (input # rest) listTypeAliases tupleTypeAliases db =
     (let inputType = (case type_of gr input of OptionalType e \<Rightarrow> e | t \<Rightarrow> t) in
      if isSubtypeOf gr inputType DynamicType
      then analyze_inputs gr tensorAlias rest listTypeAliases tupleTypeAliases
             (addAlias_symbol gr input tensorAlias db)
      else
        case inputType of
          ListType c \<Rightarrow>
            (let containedType = (if isSubtypeOf gr c DynamicType then DynamicType else c) in
             case listTypeAliases (kind containedType) of
               Some s \<Rightarrow>
                 analyze_inputs gr tensorAlias rest listTypeAliases tupleTypeAliases
                   (addAlias_symbol gr input s db)
             | None \<Rightarrow>
                 (let (s, db1) = getFreshAlias db in
                  analyze_inputs gr tensorAlias rest (listTypeAliases(kind containedType \<mapsto> s))
                    tupleTypeAliases (addAlias_symbol gr input s db1)))
        | TupleType ts \<Rightarrow>
            (let tupleType = tuple_type_ptr gr input in
             case tupleTypeAliases tupleType of
               Some s \<Rightarrow>
                 analyze_inputs gr tensorAlias rest listTypeAliases tupleTypeAliases
                   (addAlias_symbol gr input s db)
             | None \<Rightarrow>
                 (let (s, db1) = getFreshAlias db in
                  analyze_inputs gr tensorAlias rest listTypeAliases
                    (tupleTypeAliases(tupleType \<mapsto> s)) (addAlias_symbol gr input s db1)))
        | _ \<Rightarrow>
            if shouldAnnotate gr input then Inl AssertionError
            else analyze_inputs gr tensorAlias rest listTypeAliases tupleTypeAliases db)"

subsection \<open>Nodes without blocks\<close>

definition analyzeCreator :: "GraphView \<Rightarrow> NodeView \<Rightarrow> AliasDb \<Rightarrow> alias_error + AliasDb" where
  "analyzeCreator gr node db =
     (case nv_outputs node of
        [output] \<Rightarrow> Inr (giveFreshAlias gr output db)
      | _ \<Rightarrow> Inl AssertionError)"

definition analyzeExtractor :: "GraphView \<Rightarrow> NodeView \<Rightarrow> AliasDb \<Rightarrow> alias_error + AliasDb" where
  "analyzeExtractor gr node db =
     Inr (fold (\<lambda>output. addAlias_info gr output createWildcard) (nv_outputs node) db)"

definition analyzeChunk :: "GraphView \<Rightarrow> NodeView \<Rightarrow> AliasDb \<Rightarrow> alias_error + AliasDb" where
  "analyzeChunk gr node db =
     (case nv_inputs node of
        [input] \<Rightarrow>
          (case valueToAlias db input of
             None \<Rightarrow> Inl OutOfRange
           | Some alias \<Rightarrow> Inr (fold (\<lambda>output. addAlias_info gr output alias) (nv_outputs node) db))
      | _ \<Rightarrow> Inl AssertionError)"

text \<open>\<open>for (alias : info.sets()) if (formal->isWrite()) aliasToWrites_[alias].insert(node)\<close>\<close>

definition record_writes :: "node_ptr \<Rightarrow> AliasInfo \<Rightarrow> AliasInfo \<Rightarrow> AliasDb \<Rightarrow> AliasDb" where
  "record_writes node formal info db =
     (if isWrite formal
      then db\<lparr>aliasToWrites :=
                (\<lambda>alias. if alias \<in> sets info then insert node (aliasToWrites db alias)
                          else aliasToWrites db alias)\<rparr>
      else db)"

text \<open>The loop that binds the formal alias annotations of the arguments to actual alias sets.\<close>

fun bind_arguments ::
  "node_ptr \<Rightarrow> AliasInfo option list \<Rightarrow> value_ptr list \<Rightarrow> (Symbol \<rightharpoonup> AliasInfo) \<Rightarrow> AliasDb \<Rightarrow>
   alias_error + (Symbol \<rightharpoonup> AliasInfo) \<times> AliasDb" where
  "bind_arguments node [] ins formalToActual db = Inr (formalToActual, db)"
| "bind_arguments node (formal # formals) [] formalToActual db = Inl OutOfRange"
| "bind_arguments node (None # formals) (actualValue # ins) formalToActual db =
     bind_arguments node formals ins formalToActual db"
| "bind_arguments node (Some formal # formals) (actualValue # ins) formalToActual db =
     (if containedTypes formal \<noteq> [] then Inl AssertionError
      else if isWildcard formal then Inl AssertionError
      else
        ebind (the_set formal) (\<lambda>formalAlias.
          if formalToActual formalAlias \<noteq> None
          then bind_arguments node formals ins formalToActual db
          else
            case valueToAlias db actualValue of
              None \<Rightarrow> Inl OutOfRange
            | Some actualAlias \<Rightarrow>
                bind_arguments node formals ins (formalToActual(formalAlias \<mapsto> actualAlias))
                  (record_writes node formal actualAlias db)))"

text \<open>The loop that gives aliases to the outputs from the formal-actual mapping.\<close>

fun bind_returns ::
  "GraphView \<Rightarrow> node_ptr \<Rightarrow> AliasInfo option list \<Rightarrow> value_ptr list \<Rightarrow> (Symbol \<rightharpoonup> AliasInfo) \<Rightarrow>
   AliasDb \<Rightarrow> alias_error + AliasDb" where
  "bind_returns gr node [] outs formalToActual db = Inr db"
| "bind_returns gr node (formal # formals) [] formalToActual db = Inl OutOfRange"
| "bind_returns gr node (None # formals) (actual # outs) formalToActual db =
     bind_returns gr node formals outs formalToActual (giveFreshAlias gr actual db)"
| "bind_returns gr node (Some formal # formals) (actual # outs) formalToActual db =
     (if containedTypes formal \<noteq> [] then Inl AssertionError
      else
        ebind (the_set formal) (\<lambda>formalAlias.
          case formalToActual formalAlias of
            None \<Rightarrow> Inl OutOfRange
          | Some outputAlias \<Rightarrow>
              bind_returns gr node formals outs formalToActual
                (addAlias_info gr actual outputAlias (record_writes node formal outputAlias db))))"

text \<open>
  The part of \<open>analyze(Node*)\<close> after the \<open>switch\<close>: the node is analysed from its schema.
  \<open>Node::schema()\<close> throws when no operator matches the node.
\<close>

definition analyze_schema :: "GraphView \<Rightarrow> NodeView \<Rightarrow> AliasDb \<Rightarrow> alias_error + AliasDb" where
  "analyze_schema gr node db =
     (case nv_schema node of
        None \<Rightarrow> Inl ErrorReport
      | Some schema \<Rightarrow>
          if (is_vararg schema \<or> is_varret schema) \<and> (\<exists>output \<in> set (nv_outputs node). shouldAnnotate gr output)
          then Inl ErrorReport
          else
            ebind (bind_arguments (nv_id node) (arguments schema) (nv_inputs node)
                     [wildcardSet \<mapsto> createWildcard] db)
              (\<lambda>(formalToActual, db1).
                 bind_returns gr (nv_id node) (returns schema) (nv_outputs node) formalToActual db1))"

text \<open>The cases of the \<open>switch\<close> of \<open>analyze(Node*)\<close> for the nodes that own no block.\<close>

definition analyze_plain :: "GraphView \<Rightarrow> NodeView \<Rightarrow> AliasDb \<Rightarrow> alias_error + AliasDb" where
  "analyze_plain gr node db =
     (if nv_kind node \<in> {prim_Constant, prim_ListConstruct, prim_TupleConstruct, prim_Undefined,
                          prim_FusedConcat}
      then analyzeCreator gr node db
      else if nv_kind node \<in> {prim_TupleUnpack, prim_TupleIndex, prim_TupleSlice, prim_ListUnpack,
                               prim_PythonOp}
      then analyzeExtractor gr node db
      else if nv_kind node = prim_ConstantChunk then analyzeChunk gr node db
      else if nv_kind node \<in> {aten_add, aten_sub, aten_mul, aten_div} \<and> nv_schema node = None
      then analyzeCreator gr node db
      else analyze_schema gr node db)"

subsection \<open>Nodes with blocks\<close>

text \<open>
  \<open>ArrayRef::slice(N)\<close> drops the first \<open>N\<close> elements. On an array of fewer elements the
  source would read past its end; that is the error \<open>OutOfRange\<close>.
\<close>

definition slice :: "nat \<Rightarrow> 'a list \<Rightarrow> alias_error + 'a list" where
  "slice n xs = (if n \<le> length xs then Inr (drop n xs) else Inl OutOfRange)"

text \<open>The loop of \<open>analyzeIf\<close> over the outputs of the node.\<close>

fun analyzeIf_outputs ::
  "GraphView \<Rightarrow> value_ptr list \<Rightarrow> value_ptr list \<Rightarrow> value_ptr list \<Rightarrow> AliasDb \<Rightarrow> alias_error + AliasDb" where
  "analyzeIf_outputs gr [] trueOutputs falseOutputs db = Inr db"
| "analyzeIf_outputs gr (nodeOutput # outs) (trueOutput # trueOutputs) (falseOutput # falseOutputs) db =
     ebind (addAlias_from gr nodeOutput trueOutput db) (\<lambda>db1.
     ebind (addAlias_from gr nodeOutput falseOutput db1) (\<lambda>db2.
     analyzeIf_outputs gr outs trueOutputs falseOutputs db2))"
| "analyzeIf_outputs gr (nodeOutput # outs) trueOutputs falseOutputs db = Inl OutOfRange"

text \<open>
  The \<open>for\<close> loop at the end of an iteration of \<open>analyzeLoop\<close>, which merges the alias info
  of the block outputs into the loop-carried inputs and computes \<open>notConverged\<close>. The
  test compares the alias info of \<open>output\<close> with itself, as the source does. Indexing
  \<open>loopCarriedInputs\<close> past its end is the error \<open>OutOfRange\<close>.
\<close>

fun analyzeLoop_merge ::
  "GraphView \<Rightarrow> value_ptr list \<Rightarrow> value_ptr list \<Rightarrow> bool \<Rightarrow> AliasDb \<Rightarrow> alias_error + bool \<times> AliasDb" where
  "analyzeLoop_merge gr loopCarriedInputs [] notConverged db = Inr (notConverged, db)"
| "analyzeLoop_merge gr [] (output # blockOutputs) notConverged db = Inl OutOfRange"
| "analyzeLoop_merge gr (input # loopCarriedInputs) (output # blockOutputs) notConverged db =
     (if valueToAlias db input \<noteq> None
      then
        (case valueToAlias db output of
           None \<Rightarrow> Inl AssertionError
         | Some a \<Rightarrow>
             ebind (addAlias_from gr input output db)
               (analyzeLoop_merge gr loopCarriedInputs blockOutputs
                  (if \<not> isSubsetOf a a then True else notConverged)))
      else
        ebind (addAlias_from gr input output db)
          (analyzeLoop_merge gr loopCarriedInputs blockOutputs notConverged))"

lemma ebind_cong [fundef_cong]:
  "m = m' \<Longrightarrow> (\<And>x. m' = Inr x \<Longrightarrow> f x = f' x) \<Longrightarrow> ebind m f = ebind m' f'"
  by (cases m') (simp_all add: ebind_def)

lemma size_bv_nodes:
  "size_list size (bv_nodes b) \<le> size b"
  by (cases b) simp

text \<open>
  \<open>analyze(Node*)\<close>, \<open>analyze(Block*)\<close> (as the walk over the nodes of the block), one
  iteration of the \<open>while\<close> loop of \<open>analyzeLoop\<close>, and that loop. The loop runs at most
  \<open>fuel\<close> iterations, and \<open>fuel\<close> more in every loop nested in its body; when they are
  spent the result is \<open>LoopDiverges\<close>.
\<close>

function analyze_node :: "GraphView \<Rightarrow> nat \<Rightarrow> NodeView \<Rightarrow> AliasDb \<Rightarrow> alias_error + AliasDb"
  and analyze_nodes :: "GraphView \<Rightarrow> nat \<Rightarrow> NodeView list \<Rightarrow> AliasDb \<Rightarrow> alias_error + AliasDb"
  and analyzeLoop_iteration ::
    "GraphView \<Rightarrow> nat \<Rightarrow> value_ptr list \<Rightarrow> value_ptr list \<Rightarrow> value_ptr list \<Rightarrow> value_ptr list \<Rightarrow>
     BlockView \<Rightarrow> AliasDb \<Rightarrow> alias_error + bool \<times> AliasDb"
  and analyzeLoop_while ::
    "GraphView \<Rightarrow> nat \<Rightarrow> nat \<Rightarrow> value_ptr list \<Rightarrow> value_ptr list \<Rightarrow> value_ptr list \<Rightarrow> value_ptr list \<Rightarrow>
     BlockView \<Rightarrow> AliasDb \<Rightarrow> alias_error + AliasDb" where
  "analyze_node gr fuel (NodeView node k ins outs blocks subgraph schema) db =
     (if k = prim_If
      then
        (case blocks of
           trueBlock # falseBlock # others \<Rightarrow>
             ebind (analyze_nodes gr fuel (bv_nodes trueBlock) db) (\<lambda>db1.
             ebind (analyze_nodes gr fuel (bv_nodes falseBlock) db1) (\<lambda>db2.
             analyzeIf_outputs gr outs (bv_outputs trueBlock) (bv_outputs falseBlock) db2))
         | _ \<Rightarrow> Inl OutOfRange)
      else if k = prim_Loop
      then
        (case blocks of
           bodyBlock # others \<Rightarrow>
             ebind (slice 2 ins) (\<lambda>loopCarriedInputs.
             ebind (slice 1 (bv_inputs bodyBlock)) (\<lambda>blockInputs.
             ebind (slice 1 (bv_outputs bodyBlock)) (\<lambda>blockOutputs.
             if length loopCarriedInputs \<noteq> length blockInputs then Inl AssertionError
             else if length blockOutputs \<noteq> length outs then Inl AssertionError
             else analyzeLoop_while gr fuel fuel outs loopCarriedInputs blockInputs blockOutputs
                    bodyBlock db)))
         | [] \<Rightarrow> Inl OutOfRange)
      else if k = prim_FusionGroup \<or> k = prim_DifferentiableGraph
      then
        (case subgraph of
           Some subgraphBlock \<Rightarrow>
             ebind (mapAliases gr (bv_inputs subgraphBlock) ins db) (\<lambda>db1.
             ebind (analyze_nodes gr fuel (bv_nodes subgraphBlock) db1) (\<lambda>db2.
             mapAliases gr outs (bv_outputs subgraphBlock) db2))
         | None \<Rightarrow> Inl AssertionError)
      else analyze_plain gr (NodeView node k ins outs blocks subgraph schema) db)"
| "analyze_nodes gr fuel [] db = Inr db"
| "analyze_nodes gr fuel (node # rest) db =
     ebind (analyze_node gr fuel node db) (analyze_nodes gr fuel rest)"
| "analyzeLoop_iteration gr fuel outs loopCarriedInputs blockInputs blockOutputs bodyBlock db =
     ebind (mapAliases gr blockInputs loopCarriedInputs db) (\<lambda>db1.
     ebind (analyze_nodes gr fuel (bv_nodes bodyBlock) db1) (\<lambda>db2.
     ebind (mapAliases gr outs blockOutputs db2) (\<lambda>db3.
     analyzeLoop_merge gr loopCarriedInputs blockOutputs False db3)))"
| "analyzeLoop_while gr fuel 0 outs loopCarriedInputs blockInputs blockOutputs bodyBlock db =
     Inl LoopDiverges"
| "analyzeLoop_while gr fuel (Suc n) outs loopCarriedInputs blockInputs blockOutputs bodyBlock db =
     ebind (analyzeLoop_iteration gr fuel outs loopCarriedInputs blockInputs blockOutputs bodyBlock db)
       (\<lambda>(notConverged, db1).
          if notConverged
          then analyzeLoop_while gr fuel n outs loopCarriedInputs blockInputs blockOutputs bodyBlock db1
          else Inr db1)"
  by pat_completeness auto

termination
  by (relation "inv_image (less_than <*lex*> less_than)
        (\<lambda>x. case x of
           Inl (Inl (gr, fuel, node, db)) \<Rightarrow> (size node, 0)
         | Inl (Inr (gr, fuel, nodes, db)) \<Rightarrow> (size_list size nodes, 0)
         | Inr (Inl (gr, fuel, outs, ins, bi, bo, bodyBlock, db)) \<Rightarrow> (Suc (size bodyBlock), 0)
         | Inr (Inr (gr, fuel, n, outs, ins, bi, bo, bodyBlock, db)) \<Rightarrow> (Suc (size bodyBlock), Suc n))")
    (auto simp add: less_Suc_eq_le intro!: order_trans [OF size_bv_nodes])

text \<open>\<open>analyze(graph)\<close>, which the constructor of \<open>AliasDb\<close> runs, and \<open>AliasAnalysis\<close>.\<close>

definition analyze :: "nat \<Rightarrow> GraphView \<Rightarrow> AliasDb \<Rightarrow> alias_error + AliasDb" where
  "analyze fuel gr db =
     (let (tensorAlias, db1) = getFreshAlias db in
      ebind (analyze_inputs gr tensorAlias (bv_inputs (gv_block gr)) Map.empty Map.empty db1)
        (analyze_nodes gr fuel (bv_nodes (gv_block gr))))"

definition AliasAnalysis :: "nat \<Rightarrow> GraphView \<Rightarrow> alias_error + AliasDb" where
  "AliasAnalysis fuel gr = analyze fuel gr AliasDb_init"

subsection \<open>A loop that swaps two tensors\<close>

text \<open>
  The graph of

  \<^verbatim>\<open>a = constant; b = constant; for i in range(n): a, b = b, a\<close>

  Values 10 (\<open>max\<close>, an int) and 11 (\<open>cond\<close>, a bool) and the tensors 12 (\<open>a\<close>) and 13 (\<open>b\<close>)
  are outputs of constants. The body of the loop has the inputs 14 (the trip count),
  15 and 16 (the carried tensors), no node, and the outputs 11, 16 and 15. The loop node
  has the outputs 17 and 18.
\<close>

definition swap_body :: BlockView where
  "swap_body = BlockView [14, 15, 16] [] [11, 16, 15]"

definition swap_loop :: GraphView where
  "swap_loop =
     \<lparr>gv_block = BlockView []
        [NodeView 2 prim_Constant [] [10] [] None None,
         NodeView 3 prim_Constant [] [11] [] None None,
         NodeView 4 prim_Constant [] [12] [] None None,
         NodeView 5 prim_Constant [] [13] [] None None,
         NodeView 6 prim_Loop [10, 11, 12, 13] [17, 18] [swap_body] None None]
        [17, 18],
      type_of = (\<lambda>v. if v = 10 \<or> v = 14 then IntType else if v = 11 then BoolType else DynamicType),
      tuple_type_ptr = (\<lambda>v. 0),
      isSubtypeOf = subtype_example\<rparr>"

text \<open>The alias sets that a database gives to a value.\<close>

definition alias_sets :: "AliasDb \<Rightarrow> value_ptr \<Rightarrow> Symbol set option" where
  "alias_sets db v = map_option sets (valueToAlias db v)"

text \<open>One more iteration of the loop of \<open>analyzeLoop\<close> at the loop node of \<open>swap_loop\<close>.\<close>

definition swap_loop_again :: "AliasDb \<Rightarrow> alias_error + bool \<times> AliasDb" where
  "swap_loop_again db = analyzeLoop_iteration swap_loop 1 [17, 18] [12, 13] [15, 16] [16, 15] swap_body db"

section \<open>Properties of the caching allocator\<close>

subsection \<open>Frame lemmas: what each operation leaves alone\<close>

lemma aa_ext_refl: "aa_ext st st"
  by (simp add: aa_ext_def)

lemma aa_ext_same: "device_stats st' = device_stats st \<Longrightarrow> aa_ext st st'"
  by (simp add: aa_ext_def)

lemma aa_ext_trans: "aa_ext a b \<Longrightarrow> aa_ext b c \<Longrightarrow> aa_ext a c"
  by (auto simp: aa_ext_def)

lemma aa_ext_get_stats: "get_stats_for_device st d = Inr st' \<Longrightarrow> aa_ext st st'"
  by (auto simp: get_stats_for_device_def aa_ext_def aa_at_def nth_append DeviceStats_init_def
      split: if_splits)

lemma get_stats_length: "get_stats_for_device st d = Inr st' \<Longrightarrow> 0 \<le> d \<and> nat d < length (device_stats st')"
  by (auto simp: get_stats_for_device_def split: if_splits)

lemma get_stats_frame:
  "get_stats_for_device st d = Inr st' \<Longrightarrow>
     heap st' = heap st \<and> allocated_blocks st' = allocated_blocks st \<and>
     small_blocks st' = small_blocks st \<and> large_blocks st' = large_blocks st"
  by (auto simp: get_stats_for_device_def split: if_splits)

lemma aa_at_update:
  "(\<And>s. amount_allocated (f s) = amount_allocated s) \<Longrightarrow> aa_at (ds[k := f (ds ! k)]) i = aa_at ds i"
  by (cases "i = k") (auto simp: aa_at_def)

lemma aa_ext_update_stats:
  "(\<And>s. amount_allocated (f s) = amount_allocated s) \<Longrightarrow> aa_ext st (update_stats d f st)"
  by (simp add: aa_ext_def update_stats_def aa_at_update)

lemma device_stats_update_block: "device_stats (update_block b f st) = device_stats st"
  by (simp add: update_block_def)

lemma device_stats_set_free_blocks: "device_stats (set_free_blocks small pool st) = device_stats st"
  by (simp add: set_free_blocks_def)

lemma device_stats_try_merge_blocks: "device_stats (try_merge_blocks dst src small st) = device_stats st"
  by (simp add: try_merge_blocks_def Let_def device_stats_update_block device_stats_set_free_blocks
      split: option.splits)

lemma device_stats_free_block: "free_block st b = Inr st' \<Longrightarrow> device_stats st' = device_stats st"
  by (auto simp: free_block_def Let_def device_stats_set_free_blocks device_stats_try_merge_blocks
      split: if_splits)

lemma device_stats_process_events: "process_events rt st = Inr st' \<Longrightarrow> device_stats st' = device_stats st"
proof (induction rt st rule: process_events.induct)
  case (1 rt st)
  show ?case
  proof (cases "cuda_events st")
    case Nil
    with 1(2) show ?thesis by (simp add: process_events.simps)
  next
    case (Cons e es)
    show ?thesis
    proof (cases "eventQuery_status rt (fst e) = cudaErrorNotReady")
      case True
      with 1(2) Cons show ?thesis by (simp add: process_events.simps)
    next
      case nr: False
      let ?st1 = "update_block (snd e) (\<lambda>b. b\<lparr>event_count := event_count b - 1\<rparr>) st"
      let ?r = "if event_count (heap ?st1 (snd e)) = 0 then free_block ?st1 (snd e) else Inr ?st1"
      from 1(2) Cons nr have ok: "eventQuery_status rt (fst e) = cudaSuccess"
        "eventDestroy_status rt (fst e) = cudaSuccess"
        by (auto simp: process_events.simps [of rt st] split: if_splits)
      from 1(2) Cons nr ok obtain st2 where r: "?r = Inr st2"
        and rec: "process_events rt (st2\<lparr>cuda_events := tl (cuda_events st2)\<rparr>) = Inr st'"
        by (auto simp: process_events.simps [of rt st] Let_def split: sum.splits if_splits)
      have d2: "device_stats st2 = device_stats st"
        using r by (auto simp: device_stats_update_block split: if_splits dest!: device_stats_free_block)
      have "device_stats st' = device_stats (st2\<lparr>cuda_events := tl (cuda_events st2)\<rparr>)"
        using 1(1) [OF Cons nr _ _ _ rec] ok r by (simp add: Let_def)
      then show ?thesis using d2 by simp
    qed
  qed
qed

lemma aa_ext_free_blocks: "free_blocks rt small its st = Inr st' \<Longrightarrow> aa_ext st st'"
proof (induction its arbitrary: st)
  case Nil
  then show ?case by (simp add: aa_ext_refl)
next
  case (Cons block its)
  show ?case
  proof (cases "b_prev (heap st block) = None \<and> b_next (heap st block) = None")
    case False
    with Cons show ?thesis by auto
  next
    case True
    with Cons.prems obtain st1 where
      g: "get_stats_for_device st (b_device (heap st block)) = Inr st1" and
      r: "free_blocks rt small its
            (set_free_blocks small
               (remove1 block (free_blocks_of small
                  (update_stats (b_device (heap st block)) (decreaseCached (b_size (heap st block))) st1)))
               (update_stats (b_device (heap st block)) (decreaseCached (b_size (heap st block))) st1)) = Inr st'"
      by (auto simp: Let_def split: if_splits sum.splits)
    let ?st2 = "update_stats (b_device (heap st block)) (decreaseCached (b_size (heap st block))) st1"
    have a: "aa_ext st st1" by (rule aa_ext_get_stats [OF g])
    have b: "aa_ext st1 ?st2" by (rule aa_ext_update_stats) (simp add: decreaseCached_def)
    have c: "aa_ext ?st2 (set_free_blocks small (remove1 block (free_blocks_of small ?st2)) ?st2)"
      by (rule aa_ext_same) (simp add: device_stats_set_free_blocks)
    from Cons.IH [OF r] a b c show ?thesis by (blast intro: aa_ext_trans)
  qed
qed

lemma aa_ext_free_cached_blocks: "free_cached_blocks rt st device = Inr st' \<Longrightarrow> aa_ext st st'"
  by (auto simp: free_cached_blocks_def Let_def split: sum.splits
      dest!: aa_ext_free_blocks intro: aa_ext_trans)

lemma aa_ext_cuda_malloc_retry:
  "cuda_malloc_retry rt st device sz = Inr (r, rt', st') \<Longrightarrow> aa_ext st st'"
  by (auto simp: cuda_malloc_retry_def aa_ext_refl split: prod.splits if_splits sum.splits
      dest!: aa_ext_free_cached_blocks)

lemma heap_free_blocks: "free_blocks rt small its st = Inr st' \<Longrightarrow> heap st' = heap st"
proof (induction its arbitrary: st)
  case Nil
  then show ?case by simp
next
  case (Cons block its)
  show ?case
  proof (cases "b_prev (heap st block) = None \<and> b_next (heap st block) = None")
    case False
    with Cons show ?thesis by auto
  next
    case True
    with Cons.prems obtain st1 where
      g: "get_stats_for_device st (b_device (heap st block)) = Inr st1" and
      r: "free_blocks rt small its
            (set_free_blocks small
               (remove1 block (free_blocks_of small
                  (update_stats (b_device (heap st block)) (decreaseCached (b_size (heap st block))) st1)))
               (update_stats (b_device (heap st block)) (decreaseCached (b_size (heap st block))) st1)) = Inr st'"
      by (auto simp: Let_def split: if_splits sum.splits)
    from Cons.IH [OF r] get_stats_frame [OF g] show ?thesis
      by (simp add: set_free_blocks_def update_stats_def)
  qed
qed

lemma heap_cuda_malloc_retry:
  "cuda_malloc_retry rt st device sz = Inr (r, rt', st') \<Longrightarrow> heap st' = heap st"
  by (auto simp: cuda_malloc_retry_def free_cached_blocks_def Let_def
      split: prod.splits if_splits sum.splits dest!: heap_free_blocks)

lemma heap_set_free_blocks: "heap (set_free_blocks small pool st) = heap st"
  by (simp add: set_free_blocks_def)

lemma malloc_find_block_props:
  assumes "malloc_find_block rt st device stream sz small = Inr (block, rt', st')"
  shows "aa_ext st st'" and "b_device (heap st' block) = device"
proof -
  let ?it = "lower_bound (heap st) (Block_init device stream sz 0) (free_blocks_of small st)"
  let ?found = "?it \<noteq> [] \<and> b_device (heap st (hd ?it)) = device \<and> b_stream (heap st (hd ?it)) = stream"
  have "aa_ext st st' \<and> b_device (heap st' block) = device"
  proof (cases ?found)
    case True
    with assms have "block = hd ?it"
      "st' = set_free_blocks small (remove1 (hd ?it) (free_blocks_of small st)) st"
      by (auto simp: malloc_find_block_def Let_def)
    with True show ?thesis
      by (simp add: aa_ext_same device_stats_set_free_blocks heap_set_free_blocks)
  next
    case False
    let ?alloc_size = "if small then kSmallAlloc else sz"
    from False assms obtain p st1 where
      r: "cuda_malloc_retry rt st device ?alloc_size = Inr ((cudaSuccess, p), rt', st1)" and
      n: "new_Block (Block_init device stream ?alloc_size p)
            (update_stats device (increaseCached ?alloc_size) st1) = (block, st')"
      by (auto simp: malloc_find_block_def Let_def split: sum.splits prod.splits if_splits)
    have a: "aa_ext st st1" by (rule aa_ext_cuda_malloc_retry [OF r])
    have b: "aa_ext st1 (update_stats device (increaseCached ?alloc_size) st1)"
      by (rule aa_ext_update_stats) (simp add: increaseCached_def Let_def)
    have c: "aa_ext (update_stats device (increaseCached ?alloc_size) st1) st'"
      using n by (intro aa_ext_same) (auto simp: new_Block_def)
    have d: "b_device (heap st' block) = device"
      using n by (auto simp: new_Block_def Block_init_def)
    from a b c d show ?thesis by (blast intro: aa_ext_trans)
  qed
  then show "aa_ext st st'" and "b_device (heap st' block) = device" by simp_all
qed

lemma b_device_update_block:
  "(\<And>y. b_device (f y) = b_device y) \<Longrightarrow> b_device (heap (update_block b f st) x) = b_device (heap st x)"
  by (simp add: update_block_def)

lemma device_stats_new_Block: "device_stats (snd (new_Block blk st)) = device_stats st"
  by (simp add: new_Block_def)

lemma opt_update_device_stats:
  "device_stats (case x of None \<Rightarrow> s | Some p \<Rightarrow> update_block p f s) = device_stats s"
  by (cases x) (simp_all add: device_stats_update_block)

lemma opt_update_b_device:
  "(\<And>y. b_device (f y) = b_device y) \<Longrightarrow>
   b_device (heap (case x of None \<Rightarrow> s | Some p \<Rightarrow> update_block p f s) z) = b_device (heap s z)"
  by (cases x) (simp_all add: b_device_update_block)

lemma fst_new_Block: "fst (new_Block blk st) = next_block st"
  by (simp add: new_Block_def)

lemma b_device_new_Block:
  "b_device (heap (snd (new_Block blk st)) x) =
     (if x = next_block st then b_device blk else b_device (heap st x))"
  by (simp add: new_Block_def)

lemma malloc_split_device_stats:
  "device_stats (snd (malloc_split device stream sz small found st)) = device_stats st"
  by (simp add: malloc_split_def Let_def split_def device_stats_update_block
      device_stats_set_free_blocks opt_update_device_stats device_stats_new_Block)

lemma malloc_split_b_device:
  "b_device (heap st found) = device \<Longrightarrow>
   b_device (heap (snd (malloc_split device stream sz small found st))
                  (fst (malloc_split device stream sz small found st))) = device"
  by (simp add: malloc_split_def Let_def split_def heap_set_free_blocks b_device_update_block
      opt_update_b_device b_device_new_Block fst_new_Block Block_init_def)

lemma read_amount_allocated_aa_at:
  "0 \<le> d \<Longrightarrow> read_amount_allocated st d = Some (aa_at (device_stats st) (nat d))"
  by (auto simp: read_amount_allocated_def get_stats_for_device_def aa_at_def nth_append
      DeviceStats_init_def)

lemma aa_at_increaseAllocated:
  "k < length ds \<Longrightarrow> aa_at (ds[k := increaseAllocated delta (ds ! k)]) k = aa_at ds k + delta"
  by (simp add: aa_at_def increaseAllocated_def Let_def)

lemma aa_at_decreaseAllocated:
  "k < length ds \<Longrightarrow> aa_at (ds[k := decreaseAllocated delta (ds ! k)]) k = aa_at ds k - delta"
  by (simp add: aa_at_def decreaseAllocated_def)

lemma malloc_result:
  assumes m: "malloc rt st sz0 stream = Inr (p, rt1, st1)"
  shows "\<exists>block. allocated_blocks st1 p = Some block \<and>
           b_device (heap st1 block) = current_device rt \<and> 0 \<le> current_device rt \<and>
           nat (current_device rt) < length (device_stats st1) \<and>
           aa_at (device_stats st1) (nat (current_device rt)) =
             aa_at (device_stats st) (nat (current_device rt)) + b_size (heap st1 block)"
proof -
  let ?dev = "current_device rt"
  let ?sz = "round_size sz0"
  let ?small = "?sz \<le> kSmallAlloc"
  from m obtain sA sB found sC where
    pe: "process_events rt st = Inr sA" and
    gs: "get_stats_for_device sA ?dev = Inr sB" and
    fb: "malloc_find_block rt sB ?dev stream ?sz ?small = Inr (found, rt1, sC)"
    by (auto simp: malloc_def Let_def split: if_splits sum.splits prod.splits)
  define block where "block = fst (malloc_split ?dev stream ?sz ?small found sC)"
  define sD where "sD = snd (malloc_split ?dev stream ?sz ?small found sC)"
  define sE where "sE = update_block block (\<lambda>b. b\<lparr>allocated := True\<rparr>) sD"
  define sF where "sF = sE\<lparr>allocated_blocks := (allocated_blocks sE)(b_ptr (heap sE block) \<mapsto> block)\<rparr>"
  from m pe gs fb have res: "p = b_ptr (heap sF block)"
    "st1 = update_stats ?dev (increaseAllocated (b_size (heap sF block))) sF"
    by (auto simp: malloc_def Let_def split_def block_def sD_def sE_def sF_def split: if_splits)
  have dA: "device_stats sA = device_stats st" by (rule device_stats_process_events [OF pe])
  have eB: "aa_ext sA sB" by (rule aa_ext_get_stats [OF gs])
  have lB: "0 \<le> ?dev" "nat ?dev < length (device_stats sB)" using get_stats_length [OF gs] by simp_all
  have eC: "aa_ext sB sC" and fd: "b_device (heap sC found) = ?dev"
    using malloc_find_block_props [OF fb] by simp_all
  have dD: "device_stats sD = device_stats sC" unfolding sD_def by (rule malloc_split_device_stats)
  have bD: "b_device (heap sD block) = ?dev" unfolding sD_def block_def
    by (rule malloc_split_b_device [OF fd])
  have dF: "device_stats sF = device_stats sD" by (simp add: sF_def sE_def update_block_def)
  have hF: "heap sF block = (heap sD block)\<lparr>allocated := True\<rparr>"
    by (simp add: sF_def sE_def update_block_def)
  have len: "nat ?dev < length (device_stats sF)"
    using lB eC dD dF by (simp add: aa_ext_def)
  have base: "aa_at (device_stats sF) (nat ?dev) = aa_at (device_stats st) (nat ?dev)"
    using eB eC dA dD dF by (simp add: aa_ext_def)
  have h1: "heap st1 = heap sF" by (simp add: res update_stats_def)
  have "allocated_blocks st1 p = Some block" by (simp add: res update_stats_def sF_def)
  moreover have "b_device (heap st1 block) = ?dev" using bD by (simp add: h1 hF)
  moreover have "aa_at (device_stats st1) (nat ?dev) =
      aa_at (device_stats st) (nat ?dev) + b_size (heap st1 block)"
    using len base by (simp add: h1) (simp add: res update_stats_def aa_at_increaseAllocated)
  moreover have "nat ?dev < length (device_stats st1)" using len by (simp add: res update_stats_def)
  ultimately show ?thesis using lB by blast
qed

lemma device_stats_insert_events_loop:
  "insert_events_loop block streams rt st = Inr (rt', st') \<Longrightarrow> device_stats st' = device_stats st"
  by (induction block streams rt st rule: insert_events_loop.induct)
     (auto simp: Let_def update_block_def split: if_splits)

lemma device_stats_insert_events:
  "insert_events rt st block = Inr (rt', st') \<Longrightarrow> device_stats st' = device_stats st"
  by (auto simp: insert_events_def Let_def update_block_def split: if_splits sum.splits
      dest!: device_stats_insert_events_loop)

lemma free_lowers:
  assumes nz: "p \<noteq> 0" and a: "allocated_blocks st p = Some block"
    and f: "free rt st p = Inr (rt', st')"
  shows "0 \<le> b_device (heap st block) \<and>
         aa_at (device_stats st') (nat (b_device (heap st block))) =
           aa_at (device_stats st) (nat (b_device (heap st block))) - b_size (heap st block)"
proof -
  let ?dev = "b_device (heap st block)"
  define s2 where "s2 = update_block block (\<lambda>b. b\<lparr>allocated := False\<rparr>)
                           (st\<lparr>allocated_blocks := (allocated_blocks st)(p := None)\<rparr>)"
  have h2: "b_device (heap s2 block) = ?dev" "b_size (heap s2 block) = b_size (heap st block)"
    "device_stats s2 = device_stats st"
    by (simp_all add: s2_def update_block_def)
  from f nz a obtain s3 where gs: "get_stats_for_device s2 ?dev = Inr s3"
    by (auto simp: free_def Let_def s2_def [symmetric] h2 split: sum.splits)
  have e3: "aa_ext s2 s3" by (rule aa_ext_get_stats [OF gs])
  have l3: "0 \<le> ?dev" "nat ?dev < length (device_stats s3)" using get_stats_length [OF gs] by simp_all
  have h3: "heap s3 = heap s2" using get_stats_frame [OF gs] by simp
  define s4 where "s4 = update_stats ?dev (decreaseAllocated (b_size (heap st block))) s3"
  have "aa_at (device_stats s4) (nat ?dev) = aa_at (device_stats s3) (nat ?dev) - b_size (heap st block)"
    using l3 by (simp add: s4_def update_stats_def aa_at_decreaseAllocated)
  also have "aa_at (device_stats s3) (nat ?dev) = aa_at (device_stats st) (nat ?dev)"
    using e3 h2 by (simp add: aa_ext_def)
  finally have d4: "aa_at (device_stats s4) (nat ?dev) =
      aa_at (device_stats st) (nat ?dev) - b_size (heap st block)" .
  have "device_stats st' = device_stats s4"
    using f nz a gs
    by (auto simp: free_def Let_def s2_def [symmetric] h2 h3 s4_def [symmetric]
        split: sum.splits if_splits
        dest!: device_stats_insert_events device_stats_free_block)
  then show ?thesis using d4 l3 by simp
qed


text \<open>The equations that evaluate the allocator on a concrete state.\<close>

lemmas alloc_eval =
  malloc_def free_def example_runtime_def THCCachingAllocator_init_def process_events.simps
  round_size_def kRoundSmall_def kSmallAlloc_def kRoundLarge_def get_stats_for_device_def
  malloc_find_block_def lower_bound_def free_blocks_of_def Block_init_def cuda_malloc_retry_def
  cudaMalloc_def update_stats_def increaseCached_def DeviceStats_init_def new_Block_def
  malloc_split_def Let_def update_block_def set_free_blocks_def increaseAllocated_def
  decreaseAllocated_def free_block_def try_merge_blocks_def BlockComparator_def
  read_amount_allocated_def

lemma example_after_malloc_eq:
  "example_after_malloc =
     \<lparr>device_stats =
        [\<lparr>amount_allocated = 512, max_amount_allocated = 512,
          amount_cached = 1048576, max_amount_cached = 1048576\<rparr>],
      large_blocks = [], small_blocks = [0],
      allocated_blocks = [4096 \<mapsto> Suc 0], cuda_events = [],
      heap = (\<lambda>_. Block_init 0 0 0 0)
        (0 := (Block_init 0 7 1048064 4608)\<lparr>b_prev := Some (Suc 0)\<rparr>,
         Suc 0 := (Block_init 0 7 512 4096)\<lparr>allocated := True, b_next := Some 0\<rparr>),
      next_block = Suc (Suc 0)\<rparr>"
  by (simp add: example_after_malloc_def alloc_eval)

subsection \<open>Size rounding\<close>

lemma round_up_eq:
  fixes k n :: nat
  assumes "0 < k" "0 < n"
  shows "n + (k - 1 - (n - 1) mod k) = ((n - 1) div k + 1) * k"
proof -
  have m: "(n - 1) mod k < k" using assms by simp
  have d: "n - 1 = (n - 1) div k * k + (n - 1) mod k" by simp
  have "n = (n - 1) div k * k + (n - 1) mod k + 1" using assms d by linarith
  then have "n + (k - 1 - (n - 1) mod k) = (n - 1) div k * k + k" using m by linarith
  then show ?thesis by simp
qed

lemma round_up_least:
  fixes k n :: nat
  assumes "0 < k" "0 < n"
  shows "is_least_multiple k n (n + (k - 1 - (n - 1) mod k))"
proof -
  let ?q = "(n - 1) div k"
  have r: "n + (k - 1 - (n - 1) mod k) = (?q + 1) * k" by (rule round_up_eq [OF assms])
  have ge: "n \<le> (?q + 1) * k"
  proof -
    have "n - 1 < (?q + 1) * k" using assms(1) by (metis Suc_eq_plus1 dividend_less_div_times add.commute mult.commute mult_Suc)
    then show ?thesis by linarith
  qed
  have least: "(?q + 1) * k \<le> m" if "k dvd m" "n \<le> m" for m
  proof -
    from that(1) obtain j where j: "m = j * k" by (auto simp: dvd_def mult.commute)
    have "n - 1 < j * k" using that(2) assms(2) j by linarith
    then have "?q < j" using assms(1) by (simp add: less_mult_imp_div_less)
    then have "?q + 1 \<le> j" by simp
    then show ?thesis unfolding j by (rule mult_le_mono1)
  qed
  show ?thesis unfolding is_least_multiple_def r using ge least by auto
qed

lemma unat_round_up:
  fixes s k :: "64 word"
  assumes k: "0 < k" and s: "0 < s" and nov: "unat s + unat k \<le> 2 ^ 64"
  shows "unat (s + (k - 1 - (s - 1) mod k)) = unat s + (unat k - 1 - (unat s - 1) mod unat k)"
proof -
  have k1: "unat (k - 1) = unat k - 1" using k by (simp add: unat_minus_one word_neq_0_conv)
  have s1: "unat (s - 1) = unat s - 1" using s by (simp add: unat_minus_one word_neq_0_conv)
  have kpos: "0 < unat k" using k by (simp add: unat_gt_0 word_neq_0_conv)
  have m: "unat ((s - 1) mod k) = (unat s - 1) mod unat k" by (simp add: unat_mod s1)
  have mlt: "(unat s - 1) mod unat k < unat k" using kpos by simp
  have le: "(s - 1) mod k \<le> k - 1" unfolding word_le_nat_alt m k1 using mlt by linarith
  have d: "unat (k - 1 - (s - 1) mod k) = unat k - 1 - (unat s - 1) mod unat k"
    using le by (simp add: unat_sub m k1)
  have "unat s + unat (k - 1 - (s - 1) mod k) < 2 ^ 64" unfolding d using nov kpos by linarith
  then have "unat (s + (k - 1 - (s - 1) mod k)) = unat s + unat (k - 1 - (s - 1) mod k)"
    by (simp add: unat_add_lem [THEN iffD1])
  then show ?thesis by (simp add: d)
qed

lemma word_round_up_least:
  fixes s k :: "64 word"
  assumes k: "0 < k" and s: "0 < s" and nov: "unat s + unat k \<le> 2 ^ 64"
  shows "is_least_multiple (unat k) (unat s) (unat (s + (k - 1 - (s - 1) mod k)))"
proof -
  have "0 < unat k" "0 < unat s" using k s by (simp_all add: unat_gt_0 word_neq_0_conv)
  then show ?thesis unfolding unat_round_up [OF assms] by (rule round_up_least)
qed

text \<open>
  Claim C2, as amended. \<open>round_size\<close> returns 512 for a size below 512; the least multiple
  of 512 that is at least the size for a size from 512 up to, but excluding, 1 MiB; and the
  least multiple of 128 KiB that is at least the size for a size from 1 MiB up to
  \<open>2^64 - 131072 = 18446744073709420544\<close>, the largest size whose rounding is below \<open>2^64\<close>.
\<close>

theorem round_size_least_multiple:
  "(sz < 512 \<longrightarrow> round_size sz = 512) \<and>
   (512 \<le> sz \<and> sz < 1048576 \<longrightarrow> is_least_multiple 512 (unat sz) (unat (round_size sz))) \<and>
   (1048576 \<le> sz \<and> sz \<le> 18446744073709420544 \<longrightarrow>
      is_least_multiple 131072 (unat sz) (unat (round_size sz)))"
proof (intro conjI impI)
  assume "sz < 512"
  then show "round_size sz = 512" by (simp add: round_size_def kRoundSmall_def)
next
  assume a: "512 \<le> sz \<and> sz < 1048576"
  then have pos: "0 < sz" unfolding word_less_nat_alt word_le_nat_alt by simp
  have "unat sz < 1048576" using a by (simp add: word_less_nat_alt)
  then have nov: "unat sz + unat (512 :: 64 word) \<le> 2 ^ 64" by simp
  have "is_least_multiple (unat (512 :: 64 word)) (unat sz) (unat (sz + (512 - 1 - (sz - 1) mod 512)))"
    by (rule word_round_up_least [OF _ pos nov]) simp
  moreover have "round_size sz = sz + (512 - 1 - (sz - 1) mod 512)"
    using a by (simp add: round_size_def kRoundSmall_def kSmallAlloc_def not_less [symmetric])
  ultimately show "is_least_multiple 512 (unat sz) (unat (round_size sz))" by simp
next
  assume a: "1048576 \<le> sz \<and> sz \<le> 18446744073709420544"
  then have pos: "0 < sz" unfolding word_less_nat_alt word_le_nat_alt by simp
  have "unat sz \<le> 18446744073709420544" using a by (simp add: word_le_nat_alt)
  then have nov: "unat sz + unat (131072 :: 64 word) \<le> 2 ^ 64" by simp
  have "is_least_multiple (unat (131072 :: 64 word)) (unat sz) (unat (sz + (131072 - 1 - (sz - 1) mod 131072)))"
    by (rule word_round_up_least [OF _ pos nov]) simp
  moreover have "\<not> sz < 512" "\<not> sz < 1048576"
    using a unfolding word_less_nat_alt word_le_nat_alt by simp_all
  then have "round_size sz = sz + (131072 - 1 - (sz - 1) mod 131072)"
    by (simp add: round_size_def kRoundSmall_def kSmallAlloc_def kRoundLarge_def)
  ultimately show "is_least_multiple 131072 (unat sz) (unat (round_size sz))" by simp
qed

text \<open>The theorem of C2 at the sizes 100, 1000 and 1048577.\<close>

theorem round_size_least_multiple_witness:
  "round_size 100 = 512 \<and> round_size 1000 = 1024 \<and> is_least_multiple 512 1000 1024 \<and>
   round_size 1048577 = 1179648 \<and> is_least_multiple 131072 1048577 1179648"
  using round_size_least_multiple [of 100] round_size_least_multiple [of 1000]
    round_size_least_multiple [of 1048577]
  by (simp add: round_size_def kRoundSmall_def kSmallAlloc_def kRoundLarge_def)

text \<open>
  Claim C2 as stated quantifies over every size. At \<open>2^64 - 1\<close> the sum wraps: the result
  is 0, which is below the size and so not a multiple of 128 KiB at or above it.
\<close>

theorem round_size_wraps_counterexample:
  "round_size 18446744073709551615 = 0 \<and>
   \<not> is_least_multiple 131072 (unat (18446744073709551615 :: 64 word))
       (unat (round_size 18446744073709551615))"
  by (simp add: round_size_def kRoundSmall_def kSmallAlloc_def kRoundLarge_def is_least_multiple_def)


subsection \<open>free\<close>

text \<open>
  Claim C9. \<open>free\<close> of the null pointer returns without an error and leaves the runtime
  and every part of the allocator's state (the map of allocated blocks, the pools, the
  statistics, the event queue, the blocks) as they were, whatever the map records.
\<close>

theorem free_null_is_noop: "free rt st 0 = Inr (rt, st)"
  by (simp add: free_def)

lemma insert_events_loop_succeeds:
  "event_calls_succeed rt \<Longrightarrow> \<exists>rt' st'. insert_events_loop block streams rt st = Inr (rt', st')"
proof (induction block streams rt st rule: insert_events_loop.induct)
  case (1 block rt st)
  show ?case by simp
next
  case (2 block stream streams rt st)
  let ?rt2 = "rt\<lparr>current_device := THCStream_device stream, next_event := Suc (next_event rt)\<rparr>"
  have ok: "event_calls_succeed ?rt2" using 2(2) by (simp add: event_calls_succeed_def)
  show ?case using 2(2) 2(1) [OF _ refl _ refl refl _ refl refl, of ] ok
    by (simp add: event_calls_succeed_def Let_def)
qed

lemma insert_events_succeeds:
  "event_calls_succeed rt \<Longrightarrow> \<exists>rt' st'. insert_events rt st block = Inr (rt', st')"
proof -
  assume ok: "event_calls_succeed rt"
  obtain rt1 st2 where
    "insert_events_loop block (stream_uses (heap st block)) rt
       (update_block block (\<lambda>b. b\<lparr>stream_uses := []\<rparr>) st) = Inr (rt1, st2)"
    using insert_events_loop_succeeds [OF ok] by blast
  then show ?thesis using ok by (simp add: insert_events_def Let_def event_calls_succeed_def)
qed

lemma get_stats_succeeds:
  "0 \<le> d \<Longrightarrow> \<exists>s'. get_stats_for_device s d = Inr s' \<and> heap s' = heap s"
  by (simp add: get_stats_for_device_def)

text \<open>
  Claim C6, as amended. For every non-null pointer that the map of allocated blocks does
  not record, \<open>free\<close> raises \<open>InvalidPointer\<close> with the state unchanged. For every recorded
  pointer whose block is as \<open>malloc\<close> left it (a device that is not negative; no
  outstanding event when no stream was recorded), \<open>free\<close> returns without an error,
  provided the event calls succeed when streams were recorded.
\<close>

theorem free_invalid_pointer:
  "(p \<noteq> 0 \<and> allocated_blocks st p = None \<longrightarrow> free rt st p = Inl (InvalidPointer p, rt, st)) \<and>
   (\<forall>block. allocated_blocks st p = Some block \<and> 0 \<le> b_device (heap st block) \<and>
      (if stream_uses (heap st block) = [] then event_count (heap st block) = 0
       else event_calls_succeed rt) \<longrightarrow>
      (\<exists>rt' st'. free rt st p = Inr (rt', st')))"
proof (intro conjI allI impI)
  assume "p \<noteq> 0 \<and> allocated_blocks st p = None"
  then show "free rt st p = Inl (InvalidPointer p, rt, st)" by (simp add: free_def)
next
  fix block
  assume a: "allocated_blocks st p = Some block \<and> 0 \<le> b_device (heap st block) \<and>
      (if stream_uses (heap st block) = [] then event_count (heap st block) = 0
       else event_calls_succeed rt)"
  show "\<exists>rt' st'. free rt st p = Inr (rt', st')"
  proof (cases "p = 0")
    case True
    then show ?thesis by (simp add: free_def)
  next
    case False
    define s2 where "s2 = update_block block (\<lambda>b. b\<lparr>allocated := False\<rparr>)
                             (st\<lparr>allocated_blocks := (allocated_blocks st)(p := None)\<rparr>)"
    have h2: "heap s2 block = (heap st block)\<lparr>allocated := False\<rparr>"
      by (simp add: s2_def update_block_def)
    obtain s3 where gs: "get_stats_for_device s2 (b_device (heap st block)) = Inr s3"
      and h3: "heap s3 = heap s2"
      using get_stats_succeeds [of "b_device (heap st block)" s2] a by blast
    define s4 where "s4 = update_stats (b_device (heap st block))
                             (decreaseAllocated (b_size (heap st block))) s3"
    have h4: "heap s4 block = (heap st block)\<lparr>allocated := False\<rparr>"
      by (simp add: s4_def update_stats_def h3 h2)
    have fr: "free rt st p =
        (if stream_uses (heap st block) \<noteq> [] then insert_events rt s4 block
         else (case free_block s4 block of
                 Inl (e, st5) \<Rightarrow> Inl (e, rt, st5)
               | Inr st5 \<Rightarrow> Inr (rt, st5)))"
      using False a gs
      by (simp add: free_def Let_def s2_def [symmetric] h2 h3 s4_def [symmetric] h4)
    show ?thesis
    proof (cases "stream_uses (heap st block) = []")
      case True
      with a have "event_count (heap st block) = 0" by simp
      then obtain st5 where "free_block s4 block = Inr st5"
        by (simp add: free_block_def h4 Let_def)
      with True fr show ?thesis by simp
    next
      case False
      with a have "event_calls_succeed rt" by simp
      from insert_events_succeeds [OF this] False fr show ?thesis by simp
    qed
  qed
qed

text \<open>
  The theorem of C6 at the pointer 5 on the empty allocator, and at the pointer 4096 that
  \<open>malloc\<close> of 100 bytes returned.
\<close>

theorem free_invalid_pointer_witness:
  "free example_runtime THCCachingAllocator_init 5 =
     Inl (InvalidPointer 5, example_runtime, THCCachingAllocator_init) \<and>
   allocated_blocks (snd (snd (projr (malloc example_runtime THCCachingAllocator_init 100 7)))) 4096 = Some 1 \<and>
   \<not> isl (free example_runtime (snd (snd (projr (malloc example_runtime THCCachingAllocator_init 100 7)))) 4096)"
proof -
  let ?st = "snd (snd (projr (malloc example_runtime THCCachingAllocator_init 100 7)))"
  have a: "allocated_blocks ?st 4096 = Some 1" by (simp add: alloc_eval)
  have b: "0 \<le> b_device (heap ?st 1)" by (simp add: alloc_eval)
  have c: "stream_uses (heap ?st 1) = []" "event_count (heap ?st 1) = 0" by (simp_all add: alloc_eval)
  have d: "allocated_blocks THCCachingAllocator_init 5 = None" by (simp add: THCCachingAllocator_init_def)
  from free_invalid_pointer [of 5 THCCachingAllocator_init example_runtime] d
  have 1: "free example_runtime THCCachingAllocator_init 5 =
     Inl (InvalidPointer 5, example_runtime, THCCachingAllocator_init)" by simp
  from free_invalid_pointer [of 4096 ?st example_runtime] a b c
  have 2: "\<exists>rt' st'. free example_runtime ?st 4096 = Inr (rt', st')" by simp
  from 1 2 a show ?thesis by auto
qed

text \<open>
  Claim C6 as stated covers every pointer that is not recorded, and lets \<open>free\<close> succeed
  for every recorded pointer. The null pointer is not recorded in the empty allocator,
  and \<open>free\<close> raises nothing for it. And the pointer 4096, recorded and used on a second
  stream, is not freed without an error when the runtime fails to create the event for
  that stream.
\<close>

theorem free_null_unrecorded_counterexample:
  "allocated_blocks THCCachingAllocator_init 0 = None \<and>
   free example_runtime THCCachingAllocator_init 0 = Inr (example_runtime, THCCachingAllocator_init) \<and>
   allocated_blocks example_recorded 4096 = Some 1 \<and>
   b_device (heap example_recorded 1) = 0 \<and>
   stream_uses (heap example_recorded 1) = [example_stream] \<and>
   isl (free (example_runtime\<lparr>eventCreate_status := cudaErrorOther 2\<rparr>) example_recorded 4096)"
  by (simp add: free_def THCCachingAllocator_init_def example_recorded_def recordStream_def
      example_stream_def example_after_malloc_eq Block_init_def update_block_def
      get_stats_for_device_def update_stats_def insert_events_def example_runtime_def Let_def)
subsection \<open>The split in malloc\<close>

lemma set_insert_mem:
  "b \<in> set (set_insert h b xs) \<or> (\<exists>x\<in>set xs. equivalent_blocks (h b) (h x))"
  by (induction xs) (auto simp: equivalent_blocks_def)

lemma free_blocks_of_set_free_blocks: "free_blocks_of small (set_free_blocks small pool st) = pool"
  by (simp add: free_blocks_of_def set_free_blocks_def)

lemma free_blocks_of_update_block: "free_blocks_of small (update_block b f st) = free_blocks_of small st"
  by (simp add: free_blocks_of_def update_block_def)

lemma free_blocks_of_new_Block: "free_blocks_of small (snd (new_Block blk st)) = free_blocks_of small st"
  by (simp add: free_blocks_of_def new_Block_def)

lemma free_blocks_of_opt_update:
  "free_blocks_of small (case x of None \<Rightarrow> s | Some p \<Rightarrow> update_block p f s) = free_blocks_of small s"
  by (cases x) (simp_all add: free_blocks_of_update_block)

text \<open>
  The two cases of the split, for a block that is a live object (its address is not the
  one the next \<open>new Block\<close> returns) and either value of \<open>small\<close>.
\<close>

lemma malloc_split_cases:
  assumes live: "block < next_block st"
  shows "let r = malloc_split device stream sz small block st;
             head = fst r; st' = snd r;
             leftover = b_size (heap st block) - sz
         in if (if small then 512 else 1048577) \<le> leftover
            then head = next_block st \<and> head \<noteq> block \<and>
                 b_size (heap st' head) = sz \<and>
                 b_ptr (heap st' head) = b_ptr (heap st block) \<and>
                 b_next (heap st' head) = Some block \<and>
                 b_prev (heap st' head) = b_prev (heap st block) \<and>
                 \<not> allocated (heap st' head) \<and>
                 allocated (heap st' block) = allocated (heap st block) \<and>
                 next_block st' = Suc (next_block st) \<and>
                 b_size (heap st' block) = leftover \<and>
                 b_ptr (heap st' block) = b_ptr (heap st block) + sz \<and>
                 b_prev (heap st' block) = Some head \<and>
                 (block \<in> set (free_blocks_of small st') \<or>
                  (\<exists>x \<in> set (free_blocks_of small st).
                     equivalent_blocks (heap st' block) (heap st' x)))
            else head = block \<and> st' = st"
proof (cases "(if small then 512 else 1048577) \<le> b_size (heap st block) - sz")
  case False
  then have c: "\<not> (if small then kRoundSmall else kSmallAlloc + 1) \<le> b_size (heap st block) - sz"
    by (cases small) (simp_all add: kRoundSmall_def kSmallAlloc_def)
  have "malloc_split device stream sz small block st = (block, st)"
    unfolding malloc_split_def using c by (rule if_not_P)
  with False show ?thesis by (simp add: Let_def)
next
  case True
  then have c: "(if small then kRoundSmall else kSmallAlloc + 1) \<le> b_size (heap st block) - sz"
    by (cases small) (simp_all add: kRoundSmall_def kSmallAlloc_def)
  let ?r = "malloc_split device stream sz small block st"
  have ne: "block \<noteq> next_block st" using live by simp
  define st1 where "st1 = snd (new_Block (Block_init device stream sz (b_ptr (heap st block))) st)"
  define st3 where "st3 = (case b_prev (heap (update_block (next_block st)
                 (\<lambda>b. b\<lparr>b_prev := b_prev (heap st1 block)\<rparr>) st1) (next_block st)) of
             None \<Rightarrow> update_block (next_block st) (\<lambda>b. b\<lparr>b_prev := b_prev (heap st1 block)\<rparr>) st1
           | Some p \<Rightarrow> update_block p (\<lambda>q. q\<lparr>b_next := Some (next_block st)\<rparr>)
               (update_block (next_block st) (\<lambda>b. b\<lparr>b_prev := b_prev (heap st1 block)\<rparr>) st1))"
  define st7 where "st7 = update_block block (\<lambda>r. r\<lparr>b_size := b_size r - sz\<rparr>)
       (update_block block (\<lambda>r. r\<lparr>b_ptr := b_ptr r + sz\<rparr>)
         (update_block block (\<lambda>r. r\<lparr>b_prev := Some (next_block st)\<rparr>)
           (update_block (next_block st) (\<lambda>b. b\<lparr>b_next := Some block\<rparr>) st3)))"
  have r: "?r = (next_block st,
        set_free_blocks small (set_insert (heap st7) block (free_blocks_of small st7)) st7)"
    unfolding malloc_split_def if_P [OF c]
    by (simp add: Let_def split_def fst_new_Block st7_def st3_def st1_def cong: option.case_cong)
  have f: "fst ?r = next_block st" by (simp add: r)
  have h1: "b_size (heap st1 block) = b_size (heap st block)" "b_ptr (heap st1 block) = b_ptr (heap st block)"
       "b_ptr (heap st1 (next_block st)) = b_ptr (heap st block)" "b_size (heap st1 (next_block st)) = sz"
       "b_prev (heap st1 block) = b_prev (heap st block)" "allocated (heap st1 block) = allocated (heap st block)"
       "\<not> allocated (heap st1 (next_block st))" "next_block st1 = Suc (next_block st)"
    using ne by (simp_all add: st1_def new_Block_def Block_init_def)
  have h3: "b_size (heap st3 x) = b_size (heap st1 x)" "b_ptr (heap st3 x) = b_ptr (heap st1 x)"
       "allocated (heap st3 x) = allocated (heap st1 x)" for x
    by (simp_all add: st3_def update_block_def split: option.splits)
  have h3p: "b_prev (heap st3 (next_block st)) = b_prev (heap st block)" "next_block st3 = next_block st1"
    by (simp_all add: st3_def update_block_def h1 split: option.splits)
  have hs: "b_size (heap (snd ?r) (next_block st)) = sz"
       "b_ptr (heap (snd ?r) (next_block st)) = b_ptr (heap st block)"
       "b_next (heap (snd ?r) (next_block st)) = Some block"
       "b_size (heap (snd ?r) block) = b_size (heap st block) - sz"
       "b_ptr (heap (snd ?r) block) = b_ptr (heap st block) + sz"
       "b_prev (heap (snd ?r) block) = Some (next_block st)"
       "b_prev (heap (snd ?r) (next_block st)) = b_prev (heap st block)"
       "\<not> allocated (heap (snd ?r) (next_block st))"
       "allocated (heap (snd ?r) block) = allocated (heap st block)"
       "next_block (snd ?r) = Suc (next_block st)"
    using ne by (simp_all add: r heap_set_free_blocks st7_def update_block_def h3 h3p h1 set_free_blocks_def)
  have p3: "free_blocks_of small st3 = free_blocks_of small st"
    by (simp add: st3_def st1_def free_blocks_of_opt_update free_blocks_of_update_block
        free_blocks_of_new_Block)
  have pool: "free_blocks_of small (snd ?r) =
        set_insert (heap (snd ?r)) block (free_blocks_of small st)"
    by (simp add: r free_blocks_of_set_free_blocks heap_set_free_blocks)
       (simp add: st7_def free_blocks_of_update_block p3)
  have mem: "block \<in> set (free_blocks_of small (snd ?r)) \<or>
        (\<exists>x \<in> set (free_blocks_of small st). equivalent_blocks (heap (snd ?r) block) (heap (snd ?r) x))"
    unfolding pool by (rule set_insert_mem)
  show ?thesis using True f hs mem ne by (simp add: Let_def)
qed

lemma equivalent_blocks_allocated:
  "equivalent_blocks (a\<lparr>allocated := t\<rparr>) b = equivalent_blocks a b"
  "equivalent_blocks a (b\<lparr>allocated := t\<rparr>) = equivalent_blocks a b"
  by (simp_all add: equivalent_blocks_def BlockComparator_def)

text \<open>
  Claim C3, as amended. Let \<open>chosen\<close> be the block that the search of \<open>malloc\<close> settles on
  for the rounded size \<open>s = round_size size\<close>, a cached block taken out of its pool or the
  block made for a fresh allocation, and \<open>B\<close> its size. Then \<open>malloc\<close> returns the address
  \<open>p\<close> of the chosen block and records under \<open>p\<close> a block at that address that is marked
  allocated. It splits exactly when the leftover \<open>B - s\<close> is at least the minimum
  remainder, which is 512 bytes when \<open>s \<le> 1 MiB\<close> (a small request) and 1 MiB + 1 bytes
  otherwise. On a split the recorded block is a new head of size \<open>s\<close> that takes the place
  of the chosen block in its chain (its \<open>prev\<close> is the old \<open>prev\<close> of the chosen block,
  its \<open>next\<close> the chosen block), and the chosen block becomes the tail: size \<open>B - s\<close>,
  address \<open>p + s\<close>, \<open>prev\<close> the head, its allocated flag untouched, and inserted into the
  pool of the request (a \<open>std::set\<close>: unless the pool holds an equivalent element).
  Otherwise the chosen block itself is recorded, whole: its allocated flag is set and no
  other block, no pool and no new block is touched. The chosen block is a live object, so
  its address is not the one the next \<open>new Block\<close> returns.
\<close>

theorem malloc_split_exactly_when:
  assumes gd: "getDevice_status rt = cudaSuccess"
    and pe: "process_events rt st = Inr sA"
    and gs: "get_stats_for_device sA (current_device rt) = Inr sB"
    and fb: "malloc_find_block rt sB (current_device rt) stream (round_size sz0)
               (round_size sz0 \<le> kSmallAlloc) = Inr (chosen, rt1, sC)"
    and live: "chosen < next_block sC"
  shows "\<exists>p st1 head.
           malloc rt st sz0 stream = Inr (p, rt1, st1) \<and>
           p = b_ptr (heap sC chosen) \<and>
           allocated_blocks st1 p = Some head \<and>
           allocated (heap st1 head) \<and>
           b_ptr (heap st1 head) = p \<and>
           (let s = round_size sz0;
                leftover = b_size (heap sC chosen) - s
            in if (if s \<le> 1048576 then 512 else 1048577) \<le> leftover
               then head = next_block sC \<and>
                    b_size (heap st1 head) = s \<and>
                    b_prev (heap st1 head) = b_prev (heap sC chosen) \<and>
                    b_next (heap st1 head) = Some chosen \<and>
                    b_size (heap st1 chosen) = leftover \<and>
                    b_ptr (heap st1 chosen) = p + s \<and>
                    b_prev (heap st1 chosen) = Some head \<and>
                    allocated (heap st1 chosen) = allocated (heap sC chosen) \<and>
                    (chosen \<in> set (free_blocks_of (s \<le> 1048576) st1) \<or>
                     (\<exists>x \<in> set (free_blocks_of (s \<le> 1048576) sC).
                        equivalent_blocks (heap st1 chosen) (heap st1 x)))
               else head = chosen \<and>
                    heap st1 = (heap sC)(chosen := (heap sC chosen)\<lparr>allocated := True\<rparr>) \<and>
                    small_blocks st1 = small_blocks sC \<and> large_blocks st1 = large_blocks sC \<and>
                    next_block st1 = next_block sC)"
proof -
  let ?dev = "current_device rt"
  define s where "s = round_size sz0"
  define small where "small = (s \<le> kSmallAlloc)"
  define head where "head = fst (malloc_split ?dev stream s small chosen sC)"
  define sD where "sD = snd (malloc_split ?dev stream s small chosen sC)"
  define sF where "sF = (update_block head (\<lambda>b. b\<lparr>allocated := True\<rparr>) sD)
      \<lparr>allocated_blocks := (allocated_blocks sD)(b_ptr (heap sD head) \<mapsto> head)\<rparr>"
  define st1 where "st1 = update_stats ?dev (increaseAllocated (b_size (heap sF head))) sF"
  have sm: "small = (s \<le> 1048576)" by (simp add: small_def kSmallAlloc_def)
  have hF: "heap sF = (heap sD)(head := (heap sD head)\<lparr>allocated := True\<rparr>)"
    by (simp add: sF_def update_block_def)
  have pF: "b_ptr (heap sF head) = b_ptr (heap sD head)" by (simp add: hF)
  have m: "malloc rt st sz0 stream = Inr (b_ptr (heap sD head), rt1, st1)"
    using gd pe gs fb
    by (simp add: malloc_def Let_def split_def s_def [symmetric] small_def [symmetric]
        head_def [symmetric] sD_def [symmetric] st1_def sF_def update_block_def)
  have h1: "heap st1 = (heap sD)(head := (heap sD head)\<lparr>allocated := True\<rparr>)"
    by (simp add: st1_def update_stats_def hF)
  have a1: "allocated_blocks st1 (b_ptr (heap sD head)) = Some head"
    by (simp add: st1_def update_stats_def sF_def update_block_def)
  have p1: "free_blocks_of x st1 = free_blocks_of x sD" "small_blocks st1 = small_blocks sD"
    "large_blocks st1 = large_blocks sD" "next_block st1 = next_block sD" for x
    by (simp_all add: st1_def update_stats_def sF_def update_block_def free_blocks_of_def)
  have eq: "equivalent_blocks (heap st1 a) (heap st1 b) = equivalent_blocks (heap sD a) (heap sD b)" for a b
    by (simp add: h1 equivalent_blocks_allocated)
  note cases = malloc_split_cases [OF live, of ?dev stream s small]
  show ?thesis
  proof (cases "(if s \<le> 1048576 then 512 else 1048577) \<le> b_size (heap sC chosen) - s")
    case True
    then have "(if small then 512 else 1048577) \<le> b_size (heap sC chosen) - s"
      by (simp add: sm)
    with cases have c:
      "head = next_block sC" "head \<noteq> chosen" "b_size (heap sD head) = s"
      "b_ptr (heap sD head) = b_ptr (heap sC chosen)" "b_next (heap sD head) = Some chosen"
      "b_prev (heap sD head) = b_prev (heap sC chosen)"
      "allocated (heap sD chosen) = allocated (heap sC chosen)"
      "b_size (heap sD chosen) = b_size (heap sC chosen) - s"
      "b_ptr (heap sD chosen) = b_ptr (heap sC chosen) + s"
      "b_prev (heap sD chosen) = Some head"
      "chosen \<in> set (free_blocks_of small sD) \<or>
         (\<exists>x \<in> set (free_blocks_of small sC). equivalent_blocks (heap sD chosen) (heap sD x))"
      by (auto simp add: Let_def head_def [symmetric] sD_def [symmetric])
    show ?thesis
      apply (rule exI [of _ "b_ptr (heap sD head)"], rule exI [of _ st1], rule exI [of _ head])
      using True c m a1
      by (simp add: Let_def s_def [symmetric] sm [symmetric] p1 eq) (simp add: h1)
  next
    case False
    then have "\<not> (if small then 512 else 1048577) \<le> b_size (heap sC chosen) - s"
      by (simp add: sm)
    with cases have c: "head = chosen" "sD = sC"
      by (auto simp add: Let_def head_def [symmetric] sD_def [symmetric])
    show ?thesis
      apply (rule exI [of _ "b_ptr (heap sD head)"], rule exI [of _ st1], rule exI [of _ head])
      using False c m a1
      by (simp add: Let_def s_def [symmetric] p1) (simp add: h1)
  qed
qed


lemma example_cached_eq:
  "example_cached =
     \<lparr>device_stats =
        [\<lparr>amount_allocated = 0, max_amount_allocated = 3145728,
          amount_cached = 3145728, max_amount_cached = 3145728\<rparr>],
      large_blocks = [0], small_blocks = [], allocated_blocks = Map.empty, cuda_events = [],
      heap = (\<lambda>_. Block_init 0 0 0 0)(0 := Block_init 0 7 3145728 4096),
      next_block = Suc 0\<rparr>"
  by (simp add: example_cached_def alloc_eval)

text \<open>
  The theorem of C3 at two requests. 512 bytes on the empty allocator: the fresh slab of
  1 MiB is split (leftover 1048064) into the allocated head of 512 bytes and a free tail
  in the small pool. 2 MiB on the allocator that caches a block of 3 MiB: the leftover
  is exactly 1 MiB, one byte short of the minimum for a large request, and the block is
  handed out whole.
\<close>

theorem malloc_split_exactly_when_witness:
  "\<not> isl (malloc example_runtime THCCachingAllocator_init 512 7) \<and>
   fst (projr (malloc example_runtime THCCachingAllocator_init 512 7)) = 4096 \<and>
   allocated_blocks (snd (snd (projr (malloc example_runtime THCCachingAllocator_init 512 7)))) 4096 = Some 1 \<and>
   allocated (heap (snd (snd (projr (malloc example_runtime THCCachingAllocator_init 512 7)))) 1) \<and>
   b_size (heap (snd (snd (projr (malloc example_runtime THCCachingAllocator_init 512 7)))) 1) = 512 \<and>
   b_next (heap (snd (snd (projr (malloc example_runtime THCCachingAllocator_init 512 7)))) 1) = Some 0 \<and>
   b_size (heap (snd (snd (projr (malloc example_runtime THCCachingAllocator_init 512 7)))) 0) = 1048064 \<and>
   b_ptr (heap (snd (snd (projr (malloc example_runtime THCCachingAllocator_init 512 7)))) 0) = 4608 \<and>
   b_prev (heap (snd (snd (projr (malloc example_runtime THCCachingAllocator_init 512 7)))) 0) = Some 1 \<and>
   \<not> allocated (heap (snd (snd (projr (malloc example_runtime THCCachingAllocator_init 512 7)))) 0) \<and>
   0 \<in> set (small_blocks (snd (snd (projr (malloc example_runtime THCCachingAllocator_init 512 7))))) \<and>
   \<not> isl (malloc example_runtime example_cached 2097152 7) \<and>
   fst (projr (malloc example_runtime example_cached 2097152 7)) = 4096 \<and>
   allocated_blocks (snd (snd (projr (malloc example_runtime example_cached 2097152 7)))) 4096 = Some 0 \<and>
   allocated (heap (snd (snd (projr (malloc example_runtime example_cached 2097152 7)))) 0) \<and>
   b_size (heap (snd (snd (projr (malloc example_runtime example_cached 2097152 7)))) 0) = 3145728 \<and>
   large_blocks (snd (snd (projr (malloc example_runtime example_cached 2097152 7)))) = [] \<and>
   small_blocks (snd (snd (projr (malloc example_runtime example_cached 2097152 7)))) = [] \<and>
   next_block (snd (snd (projr (malloc example_runtime example_cached 2097152 7)))) = 1"
proof -
  have gd: "getDevice_status example_runtime = cudaSuccess" by (simp add: example_runtime_def)
  have cd: "current_device example_runtime = 0" by (simp add: example_runtime_def)
  define B1 where "B1 = THCCachingAllocator_init\<lparr>device_stats := [DeviceStats_init]\<rparr>"
  define R1 where "R1 = example_runtime\<lparr>malloc_results := [(cudaSuccess, 8388608)]\<rparr>"
  define C1 where "C1 = snd (new_Block (Block_init 0 7 1048576 4096)
                      (update_stats 0 (increaseCached 1048576) B1))"
  have pe1: "process_events example_runtime THCCachingAllocator_init = Inr THCCachingAllocator_init"
    by (simp add: process_events.simps THCCachingAllocator_init_def)
  have gs1: "get_stats_for_device THCCachingAllocator_init (current_device example_runtime) = Inr B1"
    by (simp add: cd B1_def get_stats_for_device_def THCCachingAllocator_init_def)
  have fb1: "malloc_find_block example_runtime B1 (current_device example_runtime) 7 (round_size 512)
               (round_size 512 \<le> kSmallAlloc) = Inr (0, R1, C1)"
    by (simp add: cd B1_def R1_def C1_def alloc_eval)
  have c1: "next_block C1 = 1" "b_size (heap C1 0) = 1048576" "b_ptr (heap C1 0) = 4096"
    "\<not> allocated (heap C1 0)" "small_blocks C1 = []" "round_size 512 = 512"
    by (simp_all add: C1_def B1_def alloc_eval)
  have live1: "0 < next_block C1" by (simp add: c1)
  let ?M1 = "malloc example_runtime THCCachingAllocator_init 512 7"
  from malloc_split_exactly_when [OF gd pe1 gs1 fb1 live1]
  obtain st1 where m1: "?M1 = Inr (4096, R1, st1)" and
    f1: "allocated_blocks st1 4096 = Some 1" "allocated (heap st1 1)" "b_size (heap st1 1) = 512"
      "b_next (heap st1 1) = Some 0" "b_size (heap st1 0) = 1048064" "b_ptr (heap st1 0) = 4608"
      "b_prev (heap st1 0) = Some 1" "\<not> allocated (heap st1 0)" "0 \<in> set (small_blocks st1)"
    by (auto simp add: c1 Let_def free_blocks_of_def)
  define C2 where "C2 = example_cached\<lparr>large_blocks := []\<rparr>"
  have pe2: "process_events example_runtime example_cached = Inr example_cached"
    by (simp add: process_events.simps example_cached_eq)
  have gs2: "get_stats_for_device example_cached (current_device example_runtime) = Inr example_cached"
    by (simp add: cd get_stats_for_device_def example_cached_eq)
  have fb2: "malloc_find_block example_runtime example_cached (current_device example_runtime) 7
               (round_size 2097152) (round_size 2097152 \<le> kSmallAlloc) = Inr (0, example_runtime, C2)"
    by (simp add: cd C2_def example_cached_eq alloc_eval)
  have c2: "next_block C2 = 1" "b_size (heap C2 0) = 3145728" "b_ptr (heap C2 0) = 4096"
    "large_blocks C2 = []" "small_blocks C2 = []" "round_size 2097152 = 2097152"
    by (simp_all add: C2_def example_cached_eq alloc_eval)
  have live2: "0 < next_block C2" by (simp add: c2)
  let ?M2 = "malloc example_runtime example_cached 2097152 7"
  from malloc_split_exactly_when [OF gd pe2 gs2 fb2 live2]
  obtain st2 where m2: "?M2 = Inr (4096, example_runtime, st2)" and
    f2: "allocated_blocks st2 4096 = Some 0" "allocated (heap st2 0)" "b_size (heap st2 0) = 3145728"
      "large_blocks st2 = []" "small_blocks st2 = []" "next_block st2 = 1"
    by (auto simp add: c2 Let_def)
  show ?thesis using f1 f2 by (simp add: m1 m2)
qed


text \<open>
  Claim C3 as stated splits only when the leftover exceeds the minimum remainder. \<open>malloc\<close>
  of 1048064 bytes on the empty allocator obtains a 1 MiB slab; the leftover is exactly
  512 bytes, which does not exceed 512, and the slab is split all the same: the block
  handed out has 1048064 bytes and a free tail of 512 bytes sits in the small pool.
\<close>

theorem malloc_split_leftover_512_counterexample:
  "round_size 1048064 = 1048064 \<and>
   \<not> isl (malloc example_runtime THCCachingAllocator_init 1048064 7) \<and>
   fst (projr (malloc example_runtime THCCachingAllocator_init 1048064 7)) = 4096 \<and>
   allocated_blocks (snd (snd (projr (malloc example_runtime THCCachingAllocator_init 1048064 7)))) 4096 = Some 1 \<and>
   b_size (heap (snd (snd (projr (malloc example_runtime THCCachingAllocator_init 1048064 7)))) 1) = 1048064 \<and>
   small_blocks (snd (snd (projr (malloc example_runtime THCCachingAllocator_init 1048064 7)))) = [0] \<and>
   b_size (heap (snd (snd (projr (malloc example_runtime THCCachingAllocator_init 1048064 7)))) 0) = 512 \<and>
   b_prev (heap (snd (snd (projr (malloc example_runtime THCCachingAllocator_init 1048064 7)))) 0) = Some 1"
  by (simp add: alloc_eval)

subsection \<open>Allocate, then free\<close>

text \<open>
  Claim C8. \<open>malloc\<close> succeeds on the current device and returns a (non-null) pointer
  \<open>p\<close>, recording a block for it; later, in a state \<open>st2\<close> reached by whatever the
  allocator did in between (on other devices, say), \<open>p\<close> is still recorded with that
  block and the block has kept its device and size; \<open>free\<close> of \<open>p\<close> then returns. Then
  \<open>malloc\<close> raised the device's \<open>amount_allocated\<close> by exactly the size of the block,
  and \<open>free\<close> lowers it by exactly the same amount. So when nothing in between changed
  the device's \<open>amount_allocated\<close>, it is back at its value before the \<open>malloc\<close>.
\<close>

theorem malloc_free_amount_allocated:
  assumes m: "malloc rt st sz0 stream = Inr (p, rt1, st1)"
    and nz: "p \<noteq> 0"
    and bl: "allocated_blocks st1 p = Some block"
    and kept: "allocated_blocks st2 p = Some block"
    and same: "b_device (heap st2 block) = b_device (heap st1 block)"
              "b_size (heap st2 block) = b_size (heap st1 block)"
    and f: "free rt2 st2 p = Inr (rt3, st3)"
  shows "\<exists>a a2. read_amount_allocated st (current_device rt) = Some a \<and>
           read_amount_allocated st1 (current_device rt) = Some (a + b_size (heap st1 block)) \<and>
           read_amount_allocated st2 (current_device rt) = Some a2 \<and>
           read_amount_allocated st3 (current_device rt) = Some (a2 - b_size (heap st1 block)) \<and>
           (a2 = a + b_size (heap st1 block) \<longrightarrow>
              read_amount_allocated st3 (current_device rt) = Some a)"
proof -
  let ?dev = "current_device rt"
  from malloc_result [OF m] bl have
    bd: "b_device (heap st1 block) = ?dev" and d0: "0 \<le> ?dev" and
    inc: "aa_at (device_stats st1) (nat ?dev) = aa_at (device_stats st) (nat ?dev) + b_size (heap st1 block)"
    by auto
  from free_lowers [OF nz kept f] same bd have dec:
    "aa_at (device_stats st3) (nat ?dev) = aa_at (device_stats st2) (nat ?dev) - b_size (heap st1 block)"
    by simp
  show ?thesis using inc dec d0 by (simp add: read_amount_allocated_aa_at)
qed


lemma example_other_device_facts:
  "\<not> isl (malloc example_runtime_1 example_after_malloc 100 7)"
  "fst (projr (malloc example_runtime_1 example_after_malloc 100 7)) = 8388608"
  "allocated_blocks example_other_device 4096 = Some (Suc 0)"
  "b_device (heap example_other_device (Suc 0)) = 0"
  "b_size (heap example_other_device (Suc 0)) = 512"
  "read_amount_allocated example_other_device 0 = Some 512"
  "read_amount_allocated example_other_device 1 = Some 512"
  "\<not> isl (free example_runtime example_other_device 4096)"
  by (simp_all add: example_other_device_def example_runtime_1_def example_after_malloc_eq alloc_eval)

text \<open>
  The theorem of C8 for 100 bytes on device 0 of the empty allocator, with an allocation
  of 100 bytes on device 1 before the free: device 0 reads 0, then 512, still 512 after
  the allocation on device 1 (which reads 512 as well), and 0 again after the free.
\<close>

theorem malloc_free_amount_allocated_witness:
  "\<not> isl (malloc example_runtime THCCachingAllocator_init 100 7) \<and>
   fst (projr (malloc example_runtime THCCachingAllocator_init 100 7)) = 4096 \<and>
   \<not> isl (malloc example_runtime_1 example_after_malloc 100 7) \<and>
   fst (projr (malloc example_runtime_1 example_after_malloc 100 7)) = 8388608 \<and>
   \<not> isl (free example_runtime example_other_device 4096) \<and>
   read_amount_allocated THCCachingAllocator_init 0 = Some 0 \<and>
   read_amount_allocated example_after_malloc 0 = Some 512 \<and>
   read_amount_allocated example_other_device 0 = Some 512 \<and>
   read_amount_allocated example_other_device 1 = Some 512 \<and>
   read_amount_allocated (snd (projr (free example_runtime example_other_device 4096))) 0 = Some 0"
proof -
  let ?M = "malloc example_runtime THCCachingAllocator_init 100 7"
  let ?F = "free example_runtime example_other_device 4096"
  have mi: "\<not> isl ?M" and p: "fst (projr ?M) = 4096" by (simp_all add: alloc_eval)
  have m: "?M = Inr (4096, fst (snd (projr ?M)), example_after_malloc)"
    unfolding example_after_malloc_def using mi p by (metis prod.collapse sum.collapse(2))
  have f: "?F = Inr (fst (projr ?F), snd (projr ?F))"
    using example_other_device_facts(8) by simp
  have r0: "read_amount_allocated THCCachingAllocator_init 0 = Some 0"
    by (simp add: alloc_eval)
  have b: "allocated_blocks example_after_malloc 4096 = Some (Suc 0)"
    "b_device (heap example_after_malloc (Suc 0)) = 0"
    "b_size (heap example_after_malloc (Suc 0)) = 512"
    by (simp_all add: example_after_malloc_eq Block_init_def)
  have cd: "current_device example_runtime = 0" by (simp add: example_runtime_def)
  from malloc_free_amount_allocated [OF m _ b(1) example_other_device_facts(3) _ _ f]
    r0 b cd example_other_device_facts
  have "read_amount_allocated example_after_malloc 0 = Some 512 \<and>
        read_amount_allocated (snd (projr ?F)) 0 = Some 0"
    by auto
  with mi p r0 example_other_device_facts show ?thesis by simp
qed


section \<open>Properties of the IR\<close>

subsection \<open>Appending to a block\<close>

lemma appended_empty: "appended empty_Graph []"
  by (simp add: appended_def empty_Graph_def new_Block_ir_def create_def new_Node_def
      initOutput_def update_node_def Let_def)

lemma create_one:
  "create k 1 g = (fresh_node g, g') \<Longrightarrow>
     fresh_node g' = Suc (fresh_node g) \<and> root_block g' = root_block g \<and>
     block_at g' = block_at g \<and>
     (\<forall>x. x \<noteq> fresh_node g \<longrightarrow> node_at g' x = node_at g x) \<and>
     n_next (node_at g' (fresh_node g)) = None \<and> n_prev (node_at g' (fresh_node g)) = None"
  by (auto simp: create_def new_Node_def addOutput_def new_Value_def update_node_def Let_def
      numeral_eq_Suc)

lemma fst_create: "fst (create k m g) = fresh_node g"
  by (simp add: create_def new_Node_def split_def)

lemma appendNode_last:
  assumes out: "blk_output (block_at g b) = ret"
    and ne: "n \<noteq> ret" "n \<noteq> l"
    and unplaced: "n_next (node_at g n) = None" "n_prev (node_at g n) = None"
    and ret: "owning_block (node_at g ret) = Some b" "n_next (node_at g ret) \<noteq> None"
      "n_prev (node_at g ret) = Some l"
    and l: "n_next (node_at g l) = Some ret" "owning_block (node_at g l) = Some b"
    and room: "l \<noteq> ret \<Longrightarrow> topo_position (node_at g l) < kUpperBound - kAppendInterval"
  shows "\<exists>g'. appendNode b n g = Inr g' \<and>
           root_block g' = root_block g \<and> block_at g' = block_at g \<and>
           fresh_node g' = fresh_node g \<and>
           (\<forall>x. x \<noteq> n \<longrightarrow> topo_position (node_at g' x) = topo_position (node_at g x)) \<and>
           topo_position (node_at g' n) =
             (if l = ret then kMidPoint else topo_position (node_at g l) + kAppendInterval) \<and>
           n_prev (node_at g' ret) = Some n \<and> n_next (node_at g' ret) \<noteq> None \<and>
           owning_block (node_at g' ret) = Some b \<and>
           n_next (node_at g' n) = Some ret \<and> owning_block (node_at g' n) = Some b"
proof (cases "l = ret")
  case True
  with assms show ?thesis
    by (simp add: appendNode_def insertBefore_def insertAfter_def inBlockList_def
        assignTopoPosition_def ebind_def JIT_ASSERT_def deref_def Let_def update_node_def)
next
  case False
  with assms show ?thesis
    by (simp add: appendNode_def insertBefore_def insertAfter_def inBlockList_def
        assignTopoPosition_def ebind_def JIT_ASSERT_def deref_def Let_def update_node_def)
qed

lemma append_new_node_step:
  assumes inv: "appended g ns" and len: "length ns \<le> 8388606"
  shows "\<exists>g'. append_new_node g = Inr (fresh_node g, g') \<and> appended g' (ns @ [fresh_node g])"
proof -
  define n where "n = fresh_node g"
  define g1 where "g1 = snd (create prim_Undefined 1 g)"
  define b where "b = root_block g"
  define ret where "ret = blk_output (block_at g b)"
  define l where "l = (if ns = [] then ret else last ns)"
  have c: "create prim_Undefined 1 g = (n, g1)"
    by (simp add: g1_def n_def prod_eq_iff fst_create)
  from create_one [OF c [unfolded n_def]] have g1:
    "fresh_node g1 = Suc n" "root_block g1 = b" "block_at g1 = block_at g"
    "\<And>x. x \<noteq> n \<Longrightarrow> node_at g1 x = node_at g x"
    "n_next (node_at g1 n) = None" "n_prev (node_at g1 n) = None"
    by (simp_all add: n_def b_def)
  from inv have i:
    "ret < n" "owning_block (node_at g ret) = Some b" "n_next (node_at g ret) \<noteq> None"
    "n_prev (node_at g ret) = Some l" "n_next (node_at g l) = Some ret"
    "owning_block (node_at g l) = Some b"
    "list_all (\<lambda>x. x < n \<and> x \<noteq> ret) ns"
    "map (\<lambda>x. topo_position (node_at g x)) ns =
       map (\<lambda>k. kMidPoint + kAppendInterval * int k) [0 ..< length ns]"
    by (auto simp: appended_def Let_def b_def ret_def l_def n_def split: if_splits)
  have ln: "l < n" using i(1) i(7) by (auto simp: l_def list_all_iff)
  have lret: "ns \<noteq> [] \<Longrightarrow> l \<noteq> ret" using i(7) by (auto simp: l_def list_all_iff)
  have ltopo: "topo_position (node_at g l) = kMidPoint + kAppendInterval * int (length ns - 1)"
    if "ns \<noteq> []"
  proof -
    have "length ns - 1 < length ns" using that by simp
    then have "map (\<lambda>x. topo_position (node_at g x)) ns ! (length ns - 1) =
        map (\<lambda>k. kMidPoint + kAppendInterval * int k) [0 ..< length ns] ! (length ns - 1)"
      using i(8) by simp
    then show ?thesis using that by (simp add: l_def last_conv_nth)
  qed
  have room: "topo_position (node_at g1 l) < kUpperBound - kAppendInterval" if "l \<noteq> ret"
  proof -
    from that have ne: "ns \<noteq> []" by (auto simp: l_def)
    have "int (length ns - 1) \<le> 8388605" using len ne by simp
    then have "kAppendInterval * int (length ns - 1) \<le> kAppendInterval * 8388605"
      by (intro mult_left_mono) (simp_all add: kAppendInterval_def)
    then show ?thesis using ln by (simp add: g1(4) ltopo [OF ne] kMidPoint_def kUpperBound_def kAppendInterval_def)
  qed
  have "\<exists>g'. appendNode b n g1 = Inr g' \<and>
           root_block g' = root_block g1 \<and> block_at g' = block_at g1 \<and>
           fresh_node g' = fresh_node g1 \<and>
           (\<forall>x. x \<noteq> n \<longrightarrow> topo_position (node_at g' x) = topo_position (node_at g1 x)) \<and>
           topo_position (node_at g' n) =
             (if l = ret then kMidPoint else topo_position (node_at g1 l) + kAppendInterval) \<and>
           n_prev (node_at g' ret) = Some n \<and> n_next (node_at g' ret) \<noteq> None \<and>
           owning_block (node_at g' ret) = Some b \<and>
           n_next (node_at g' n) = Some ret \<and> owning_block (node_at g' n) = Some b"
    using i ln room
    by (intro appendNode_last) (simp_all add: g1 ret_def)
  then obtain g' where g':
    "appendNode b n g1 = Inr g'" "root_block g' = b" "block_at g' = block_at g"
    "fresh_node g' = Suc n"
    "\<And>x. x \<noteq> n \<Longrightarrow> topo_position (node_at g' x) = topo_position (node_at g1 x)"
    "topo_position (node_at g' n) =
       (if l = ret then kMidPoint else topo_position (node_at g1 l) + kAppendInterval)"
    "n_prev (node_at g' ret) = Some n" "n_next (node_at g' ret) \<noteq> None"
    "owning_block (node_at g' ret) = Some b"
    "n_next (node_at g' n) = Some ret" "owning_block (node_at g' n) = Some b"
    by (auto simp: g1)
  have app: "append_new_node g = Inr (n, g')"
    unfolding append_new_node_def c by (simp add: g1 g'(1) ebind_def)
  have old: "topo_position (node_at g' x) = topo_position (node_at g x)" if "x \<in> set ns" for x
  proof -
    from that i(7) have "x \<noteq> n" by (auto simp: list_all_iff)
    then show ?thesis by (simp add: g'(5) g1(4))
  qed
  have new: "topo_position (node_at g' n) = kMidPoint + kAppendInterval * int (length ns)"
  proof (cases "ns = []")
    case True
    then show ?thesis by (simp add: g'(6) l_def)
  next
    case False
    then have "topo_position (node_at g' n) = topo_position (node_at g l) + kAppendInterval"
      using lret ln by (simp add: g'(6) g1(4))
    also have "\<dots> = kMidPoint + kAppendInterval * int (length ns)"
    proof -
      from False obtain k where k: "length ns = Suc k" by (cases ns) auto
      show ?thesis by (simp add: ltopo [OF False] k algebra_simps)
    qed
    finally show ?thesis .
  qed
  have "map (\<lambda>x. topo_position (node_at g' x)) (ns @ [n]) =
      map (\<lambda>k. kMidPoint + kAppendInterval * int k) [0 ..< length (ns @ [n])]"
    using i(8) old new by (simp cong: map_cong)
  moreover have "list_all (\<lambda>x. x < fresh_node g' \<and> x \<noteq> ret) (ns @ [n])"
    using i(7) i(1) by (auto simp: g'(4) list_all_iff)
  ultimately have "appended g' (ns @ [n])"
    using i(1) g'
    by (simp add: appended_def Let_def ret_def [symmetric])
  with app show ?thesis unfolding n_def by blast
qed

lemma append_nodes_appended:
  assumes "m \<le> 8388607"
  shows "\<exists>ns g. append_nodes m empty_Graph = Inr (ns, g) \<and> length ns = m \<and> appended g ns"
  using assms
proof (induction m)
  case 0
  then show ?case by (simp add: appended_empty)
next
  case (Suc m)
  then obtain ns g where a: "append_nodes m empty_Graph = Inr (ns, g)" "length ns = m" "appended g ns"
    by auto
  from append_new_node_step [OF a(3)] Suc.prems a(2)
  obtain g' where "append_new_node g = Inr (fresh_node g, g')" "appended g' (ns @ [fresh_node g])"
    by auto
  with a show ?case by (simp add: ebind_def)
qed


subsection \<open>Erasing an output\<close>

lemma node_at_update_value: "node_at (update_value v f g) = node_at g"
  by (simp add: update_value_def)

lemma fold_decrement:
  fixes this :: node_ptr
  defines "F \<equiv> (\<lambda>j h. update_value (n_outputs (node_at h this) ! j)
                          (\<lambda>x. x\<lparr>v_offset := v_offset x - 1\<rparr>) h)"
  assumes "distinct (map ((!) (n_outputs (node_at g this))) js)"
  shows "node_at (fold F js g) = node_at g \<and>
         (\<forall>x. value_at (fold F js g) x =
            (if x \<in> set (map ((!) (n_outputs (node_at g this))) js)
             then (value_at g x)\<lparr>v_offset := v_offset (value_at g x) - 1\<rparr>
             else value_at g x))"
  using assms(2)
proof (induction js arbitrary: g)
  case Nil
  then show ?case by simp
next
  case (Cons j js)
  let ?g1 = "F j g"
  have n1: "node_at ?g1 = node_at g" by (simp add: F_def node_at_update_value)
  have d: "distinct (map ((!) (n_outputs (node_at ?g1 this))) js)" using Cons.prems by (simp add: n1)
  from Cons.IH [OF d] have ih: "node_at (fold F js ?g1) = node_at g"
    "\<And>x. value_at (fold F js ?g1) x =
            (if x \<in> set (map ((!) (n_outputs (node_at g this))) js)
             then (value_at ?g1 x)\<lparr>v_offset := v_offset (value_at ?g1 x) - 1\<rparr>
             else value_at ?g1 x)"
    by (simp_all add: n1)
  have v1: "value_at ?g1 x = (if x = n_outputs (node_at g this) ! j
             then (value_at g x)\<lparr>v_offset := v_offset (value_at g x) - 1\<rparr> else value_at g x)" for x
    by (simp add: F_def update_value_def)
  have notin: "n_outputs (node_at g this) ! j \<notin> set (map ((!) (n_outputs (node_at g this))) js)"
    using Cons.prems by simp
  show ?case using ih notin by (auto simp: v1)
qed

lemma offsets_match_nth:
  "offsets_match g n \<Longrightarrow> j < length (n_outputs (node_at g n)) \<Longrightarrow>
     v_offset (value_at g (n_outputs (node_at g n) ! j)) = of_nat j"
  by (simp add: offsets_match_def list_all_iff)

lemma offsets_match_distinct:
  assumes m: "offsets_match g n" and len: "length (n_outputs (node_at g n)) \<le> 2 ^ 64"
  shows "distinct (n_outputs (node_at g n))"
proof -
  let ?outs = "n_outputs (node_at g n)"
  have "j = k" if "j < length ?outs" "k < length ?outs" "?outs ! j = ?outs ! k" for j k
  proof -
    have "(of_nat j :: 64 word) = of_nat k"
      using offsets_match_nth [OF m that(1)] offsets_match_nth [OF m that(2)] that(3) by simp
    then have "unat (of_nat j :: 64 word) = unat (of_nat k :: 64 word)" by simp
    then have "j mod 2 ^ 64 = k mod 2 ^ 64" by (simp add: unat_of_nat)
    moreover have "j < 2 ^ 64" "k < 2 ^ 64" using that len by simp_all
    ultimately show ?thesis by simp
  qed
  then show ?thesis by (auto simp: distinct_conv_nth)
qed

lemma v_offset_clearUniqueName:
  "v_offset (value_at (clearUniqueName v g) x) = v_offset (value_at g x)"
  by (simp add: clearUniqueName_def update_value_def)

lemma node_at_clearUniqueName: "node_at (clearUniqueName v g) = node_at g"
  by (simp add: clearUniqueName_def update_value_def)

lemma all_values_clearUniqueName: "all_values (clearUniqueName v g) = all_values g"
  by (simp add: clearUniqueName_def update_value_def)

lemma node_at_update_node_same: "node_at (update_node n f g) n = f (node_at g n)"
  by (simp add: update_node_def)

lemma all_values_fold_update_value:
  "all_values (fold (\<lambda>j h. update_value (k h j) f h) js g) = all_values g"
  by (induction js arbitrary: g) (simp_all add: update_value_def)

text \<open>
  Claim C5. For a node and an index \<open>i\<close> into its outputs, \<open>eraseOutput\<close> fails when
  output \<open>i\<close> has a use. When it has none (and the graph is well formed: the output is a
  value of the graph and every output records its index as its offset), \<open>eraseOutput\<close>
  removes that output from the list and from the graph's values and lowers by one the
  offset of every output that followed it, so that every remaining output records its
  index again.
\<close>

theorem eraseOutput_offsets:
  assumes i: "i < length (n_outputs (node_at g this))"
  shows "(v_uses (value_at g (n_outputs (node_at g this) ! i)) \<noteq> [] \<longrightarrow>
            eraseOutput this i g = Inl AssertFailed) \<and>
         (v_uses (value_at g (n_outputs (node_at g this) ! i)) = [] \<and>
          n_outputs (node_at g this) ! i \<in> all_values g \<and>
          offsets_match g this \<and> length (n_outputs (node_at g this)) \<le> 2 ^ 64 \<longrightarrow>
            (\<exists>g'. eraseOutput this i g = Inr g' \<and>
               n_outputs (node_at g' this) =
                 take i (n_outputs (node_at g this)) @ drop (Suc i) (n_outputs (node_at g this)) \<and>
               n_outputs (node_at g this) ! i \<notin> all_values g' \<and>
               list_all (\<lambda>j. v_offset (value_at g' (n_outputs (node_at g' this) ! j)) =
                              v_offset (value_at g (n_outputs (node_at g' this) ! j)) - 1)
                 [i ..< length (n_outputs (node_at g' this))] \<and>
               offsets_match g' this))"
proof (intro conjI impI)
  assume "v_uses (value_at g (n_outputs (node_at g this) ! i)) \<noteq> []"
  with i show "eraseOutput this i g = Inl AssertFailed"
    by (simp add: eraseOutput_def ebind_def JIT_ASSERT_def)
next
  let ?outs = "n_outputs (node_at g this)"
  let ?v = "?outs ! i"
  let ?outs' = "take i ?outs @ drop (Suc i) ?outs"
  assume a: "v_uses (value_at g ?v) = [] \<and> ?v \<in> all_values g \<and>
          offsets_match g this \<and> length ?outs \<le> 2 ^ 64"
  define g2 where "g2 = update_node this (\<lambda>x. x\<lparr>n_outputs := take i (n_outputs x) @ drop (Suc i) (n_outputs x)\<rparr>)
                          (update_node this (\<lambda>x. x\<lparr>n_schema := None\<rparr>) g)"
  define g3 where "g3 = (clearUniqueName ?v g2)\<lparr>all_values := all_values (clearUniqueName ?v g2) - {?v}\<rparr>"
  define F where "F = (\<lambda>j h. update_value (n_outputs (node_at h this) ! j)
                          (\<lambda>x. x\<lparr>v_offset := v_offset x - 1\<rparr>) h)"
  define g' where "g' = fold F [i ..< length (n_outputs (node_at g3 this))] g3"
  have o2: "n_outputs (node_at g2 this) = ?outs'" by (simp add: g2_def update_node_def)
  have v2: "value_at g2 = value_at g" "all_values g2 = all_values g"
    by (simp_all add: g2_def update_node_def)
  have fv: "freeValue ?v g2 = Inr g3"
    using a by (simp add: freeValue_def Let_def ebind_def JIT_ASSERT_def g3_def
        all_values_clearUniqueName v2)
  have o3: "n_outputs (node_at g3 this) = ?outs'"
    by (simp add: g3_def node_at_clearUniqueName o2)
  have off3: "v_offset (value_at g3 x) = v_offset (value_at g x)" for x
    by (simp add: g3_def v_offset_clearUniqueName v2)
  have res: "eraseOutput this i g = Inr g'"
    using i a
    by (simp add: eraseOutput_def ebind_def JIT_ASSERT_def Let_def node_at_update_node_same
        g2_def [symmetric] fv g'_def F_def)
  have dist: "distinct ?outs" using a by (intro offsets_match_distinct) simp_all
  then have "distinct (take i ?outs @ ?outs ! i # drop (Suc i) ?outs)"
    by (simp only: id_take_nth_drop [OF i, symmetric])
  then have dist': "distinct ?outs'" by auto
  have len': "length ?outs' = length ?outs - 1" using i by simp
  have dmap: "distinct (map ((!) (n_outputs (node_at g3 this))) [i ..< length (n_outputs (node_at g3 this))])"
    unfolding o3 using dist' by (simp add: distinct_map inj_on_def nth_eq_iff_index_eq)
  from fold_decrement [OF dmap] have
    n': "node_at g' = node_at g3" and
    val': "\<And>x. value_at g' x =
            (if x \<in> set (map ((!) ?outs') [i ..< length ?outs'])
             then (value_at g3 x)\<lparr>v_offset := v_offset (value_at g3 x) - 1\<rparr>
             else value_at g3 x)"
    by (simp_all add: g'_def F_def o3)
  have o': "n_outputs (node_at g' this) = ?outs'" by (simp add: n' o3)
  have av: "all_values g' = all_values g3"
    unfolding g'_def F_def by (rule all_values_fold_update_value)
  have gone: "?v \<notin> all_values g'" by (simp add: av g3_def)
  have nth_lo: "?outs' ! j = ?outs ! j" if "j < i" for j
    using that i by (simp add: nth_append)
  have nth_hi: "?outs' ! j = ?outs ! Suc j" if "i \<le> j" "j < length ?outs'" for j
    using that i by (simp add: nth_append min_def)
  have in_set: "?outs' ! j \<in> set (map ((!) ?outs') [i ..< length ?outs']) \<longleftrightarrow> i \<le> j"
    if "j < length ?outs'" for j
    using that dist' by (auto simp: nth_eq_iff_index_eq)
  have dec: "v_offset (value_at g' (?outs' ! j)) = v_offset (value_at g (?outs' ! j)) - 1"
    if "i \<le> j" "j < length ?outs'" for j
    using that in_set [OF that(2)] by (simp add: val' off3)
  have keep: "v_offset (value_at g' (?outs' ! j)) = v_offset (value_at g (?outs' ! j))"
    if "j < i" "j < length ?outs'" for j
    using that in_set [OF that(2)] by (simp add: val' off3)
  have m: "offsets_match g this" using a by simp
  have off': "v_offset (value_at g' (?outs' ! j)) = of_nat j" if "j < length ?outs'" for j
  proof (cases "i \<le> j")
    case True
    have "Suc j < length ?outs" using that i by simp
    then have "v_offset (value_at g (?outs ! Suc j)) = of_nat (Suc j)"
      by (rule offsets_match_nth [OF m])
    then show ?thesis using dec [OF True that] nth_hi [OF True that] by simp
  next
    case False
    then have lt: "j < i" by simp
    then have "j < length ?outs" using i by simp
    then have "v_offset (value_at g (?outs ! j)) = of_nat j"
      by (rule offsets_match_nth [OF m])
    then show ?thesis using keep [OF lt that] nth_lo [OF lt] by simp
  qed
  show "\<exists>g'. eraseOutput this i g = Inr g' \<and>
               n_outputs (node_at g' this) = ?outs' \<and>
               ?v \<notin> all_values g' \<and>
               list_all (\<lambda>j. v_offset (value_at g' (n_outputs (node_at g' this) ! j)) =
                              v_offset (value_at g (n_outputs (node_at g' this) ! j)) - 1)
                 [i ..< length (n_outputs (node_at g' this))] \<and>
               offsets_match g' this"
    using res o' gone dec off'
    by (intro exI [of _ g']) (simp add: offsets_match_def list_all_iff)
qed


lemma three_outputs_eval:
  "n_outputs (node_at (snd three_outputs) 2) = [0, 1, 2]"
  "all_values (snd three_outputs) = {0, 1, 2}"
  "v_offset (value_at (snd three_outputs) 0) = 0"
  "v_offset (value_at (snd three_outputs) 1) = 1"
  "v_offset (value_at (snd three_outputs) 2) = 2"
  "v_uses (value_at (snd three_outputs) 1) = []"
  "v_offset (value_at (snd three_outputs) (Suc 0)) = 1"
  "v_uses (value_at (snd three_outputs) (Suc 0)) = []"
  by (auto simp: three_outputs_def create_def new_Node_def addOutput_def new_Value_def
      update_node_def Let_def split_def empty_Graph_def new_Block_ir_def initOutput_def
      numeral_3_eq_3 numeral_2_eq_2)

text \<open>
  The theorem of C5 on a node with three unused outputs, erasing the middle one; and on
  the same node once its middle output has a use.
\<close>

theorem eraseOutput_offsets_witness:
  "(\<exists>g'. eraseOutput 2 1 (snd three_outputs) = Inr g' \<and>
         n_outputs (node_at g' 2) = [0, 2] \<and> 1 \<notin> all_values g' \<and>
         v_offset (value_at g' 0) = 0 \<and> v_offset (value_at g' 2) = 1) \<and>
   eraseOutput 2 1 (addInput 2 1 (snd three_outputs)) = Inl AssertFailed"
proof -
  let ?g = "snd three_outputs"
  have m: "offsets_match ?g 2"
    by (simp add: offsets_match_def three_outputs_eval upt_rec [of 0] upt_rec [of 1] upt_rec [of 2]
      upt_rec [of 3])
  from eraseOutput_offsets [of 1 ?g 2] m
  obtain g' where g': "eraseOutput 2 1 ?g = Inr g'" "n_outputs (node_at g' 2) = [0, 2]"
    "1 \<notin> all_values g'" "offsets_match g' 2"
    by (auto simp: three_outputs_eval)
  from g'(4) have "v_offset (value_at g' 0) = 0 \<and> v_offset (value_at g' 2) = 1"
    by (simp add: offsets_match_def g'(2) upt_rec [of 0] upt_rec [of 1] upt_rec [of 2])
  moreover have u: "n_outputs (node_at (addInput 2 1 ?g) 2) = [0, 1, 2]"
    "v_uses (value_at (addInput 2 1 ?g) 1) \<noteq> []"
    by (simp_all add: addInput_def update_node_def update_value_def Let_def three_outputs_eval)
  from eraseOutput_offsets [of 1 "addInput 2 1 ?g" 2] u
  have "eraseOutput 2 1 (addInput 2 1 ?g) = Inl AssertFailed" by simp
  ultimately show ?thesis using g' by blast
qed

subsection \<open>Appending ten nodes\<close>

text \<open>
  Claim C4, as amended. Starting from the empty graph, appending 10 nodes one after
  another succeeds and gives the \<open>k\<close>-th appended node (\<open>k\<close> from 1 to 10) the position
  \<open>kMidPoint + kAppendInterval * (k - 1)\<close>, that is \<open>2^40 * (k - 1)\<close>: the first node of an
  empty block is placed at the midpoint 0, and each further node one stride after its
  predecessor.
\<close>

theorem append_ten_positions:
  "\<exists>ns g. append_nodes 10 empty_Graph = Inr (ns, g) \<and> length ns = 10 \<and>
      map (\<lambda>n. topo_position (node_at g n)) ns =
        map (\<lambda>k. kMidPoint + kAppendInterval * (int k - 1)) [1 ..< 11]"
proof -
  obtain ns g where a: "append_nodes 10 empty_Graph = Inr (ns, g)" "length ns = 10" "appended g ns"
    using append_nodes_appended [of 10] by auto
  from a(3) a(2) have "map (\<lambda>n. topo_position (node_at g n)) ns =
      map (\<lambda>k. kMidPoint + kAppendInterval * int k) [0 ..< 10]"
    by (simp add: appended_def Let_def)
  also have "\<dots> = map (\<lambda>k. kMidPoint + kAppendInterval * (int (Suc k) - 1)) [0 ..< 10]"
    by simp
  also have "\<dots> = map (\<lambda>k. kMidPoint + kAppendInterval * (int k - 1)) (map Suc [0 ..< 10])"
    by (simp only: map_map o_def)
  also have "map Suc [0 ..< 10] = [1 ..< 11]"
    by (simp only: map_Suc_upt) simp
  finally show ?thesis using a by blast
qed

text \<open>
  Claim C4 as stated puts the \<open>k\<close>-th node at \<open>MIN + stride * k\<close>. The first appended node
  is at 0, not at \<open>kLowerBound + kAppendInterval * 1 = -9223370937343148032\<close>.
\<close>

theorem first_appended_position_counterexample:
  "\<not> isl (append_nodes 10 empty_Graph) \<and>
   topo_position (node_at (snd (projr (append_nodes 10 empty_Graph)))
                          (fst (projr (append_nodes 10 empty_Graph)) ! 0)) = 0 \<and>
   kLowerBound + kAppendInterval * 1 = - 9223370937343148032"
proof -
  obtain ns g where a: "append_nodes 10 empty_Graph = Inr (ns, g)" "length ns = 10" "appended g ns"
    using append_nodes_appended [of 10] by auto
  from a(3) a(2) have "map (\<lambda>n. topo_position (node_at g n)) ns ! 0 =
      map (\<lambda>k. kMidPoint + kAppendInterval * int k) [0 ..< 10] ! 0"
    by (simp add: appended_def Let_def)
  then have "topo_position (node_at g (ns ! 0)) = 0"
    using a(2) by (simp add: kMidPoint_def)
  then show ?thesis by (simp add: a(1) kLowerBound_def kAppendInterval_def)
qed


subsection \<open>Moving a node to itself\<close>

text \<open>
  Claim C10. For every node placed in a block, \<open>tryMove\<close> of the node to itself, on either
  side, returns true and the graph it leaves is the graph it was given: no position in a
  block, no topological position and no link has changed.
\<close>

theorem tryMove_same_node:
  assumes "inBlockList g n = Inr True"
  shows "tryMove g n n moveSide = Inr (True, g)"
  using assms by (simp add: tryMove_def ebind_def JIT_ASSERT_def)

text \<open>The theorem of C10 at the last of three nodes appended to the empty graph.\<close>

theorem tryMove_same_node_witness:
  "inBlockList (snd (projr (append_nodes 3 empty_Graph)))
     (last (fst (projr (append_nodes 3 empty_Graph)))) = Inr True \<and>
   tryMove (snd (projr (append_nodes 3 empty_Graph)))
     (last (fst (projr (append_nodes 3 empty_Graph))))
     (last (fst (projr (append_nodes 3 empty_Graph)))) BEFORE =
     Inr (True, snd (projr (append_nodes 3 empty_Graph))) \<and>
   tryMove (snd (projr (append_nodes 3 empty_Graph)))
     (last (fst (projr (append_nodes 3 empty_Graph))))
     (last (fst (projr (append_nodes 3 empty_Graph)))) AFTER =
     Inr (True, snd (projr (append_nodes 3 empty_Graph)))"
proof -
  obtain ns g where a: "append_nodes 3 empty_Graph = Inr (ns, g)" "length ns = 3" "appended g ns"
    using append_nodes_appended [of 3] by auto
  from a(2) have ne: "ns \<noteq> []" by auto
  with a(3) have "n_next (node_at g (last ns)) \<noteq> None" by (simp add: appended_def Let_def)
  then have live: "inBlockList g (last ns) = Inr True" by (auto simp: inBlockList_def)
  from tryMove_same_node [OF live] live show ?thesis by (simp add: a(1))
qed


section \<open>Properties of type unification\<close>













section \<open>Properties of the alias analysis\<close>

text \<open>
  The \<open>for\<close> loop that ends an iteration of \<open>analyzeLoop\<close> never sets \<open>notConverged\<close>: its
  test asks whether the alias info of \<open>output\<close> is a subset of itself. So every
  iteration ends with \<open>notConverged = false\<close>, and the \<open>while\<close> loop runs its body once,
  whatever the graph.
\<close>

lemma analyzeLoop_merge_keeps:
  "analyzeLoop_merge gr is os nc db = Inr (nc', db') \<Longrightarrow> nc' = nc"
proof (induction gr "is" os nc db rule: analyzeLoop_merge.induct)
  case (3 gr i1 is1 o1 os1 nc1 db)
  then show ?case
    by (auto simp add: ebind_def isSubsetOf_def split: if_splits option.splits sum.splits)
qed simp_all

lemma analyzeLoop_iteration_converged:
  "analyzeLoop_iteration gr fuel outs is bi bo body db = Inr (nc, db') \<Longrightarrow> \<not> nc"
  by (auto simp add: ebind_def split: sum.splits dest: analyzeLoop_merge_keeps)

lemma analyzeLoop_while_once:
  "analyzeLoop_while gr fuel (Suc n) outs is bi bo body db =
     ebind (analyzeLoop_iteration gr fuel outs is bi bo body db) (\<lambda>(notConverged, db1). Inr db1)"
proof (cases "analyzeLoop_iteration gr fuel outs is bi bo body db")
  case (Inl e)
  then show ?thesis by (simp add: ebind_def)
next
  case (Inr r)
  obtain nc db1 where r: "r = (nc, db1)" by (cases r)
  with Inr have "\<not> nc" using analyzeLoop_iteration_converged by blast
  with Inr r show ?thesis by (simp add: ebind_def)
qed

subsection \<open>The loop that swaps two tensors\<close>

lemmas alias_eval =
  AliasAnalysis_def analyze_def AliasDb_init_def getFreshAlias_def swap_loop_def swap_body_def
  analyze_plain_def analyzeCreator_def giveFreshAlias_def addAlias_symbol_def addAlias_info_def
  addAlias_from_def shouldAnnotate_def subtype_example_def ebind_def slice_def mapAliases_def
  addSet_def unionWith_def isSubsetOf_def alias_sets_def swap_loop_again_def Let_def

lemma swap_loop_result:
  "AliasAnalysis 1 swap_loop =
     Inr \<lparr>latestSymbol = 5,
          valueToAlias =
            [15 \<mapsto> AliasInfo {AliasSym 4} False [],
             16 \<mapsto> AliasInfo {AliasSym 5} False [],
             17 \<mapsto> AliasInfo {AliasSym 5} False [],
             18 \<mapsto> AliasInfo {AliasSym 4} False [],
             12 \<mapsto> AliasInfo {AliasSym 5, AliasSym 4} False [],
             13 \<mapsto> AliasInfo {AliasSym 4, AliasSym 5} False []],
          aliasToWrites = (\<lambda>_. {})\<rparr>"
  by (simp add: alias_eval eval_nat_numeral)

text \<open>
  Claim C1 says that the analysis of a loop repeats until a fixpoint and ends exactly
  when one more iteration would change no value's alias sets. For the loop that swaps
  two tensors the analysis returns after the one iteration, with alias set 4 alone for
  the block input 15 and alias set 5 alone for the loop output 17; one more iteration
  of the loop on that result succeeds and gives both values the alias sets 4 and 5.
\<close>

theorem analyzeLoop_stops_short_of_fixpoint:
  "\<not> isl (AliasAnalysis 1 swap_loop) \<and>
   alias_sets (projr (AliasAnalysis 1 swap_loop)) 15 = Some {AliasSym 4} \<and>
   alias_sets (projr (AliasAnalysis 1 swap_loop)) 17 = Some {AliasSym 5} \<and>
   \<not> isl (swap_loop_again (projr (AliasAnalysis 1 swap_loop))) \<and>
   alias_sets (snd (projr (swap_loop_again (projr (AliasAnalysis 1 swap_loop))))) 15 =
     Some {AliasSym 4, AliasSym 5} \<and>
   alias_sets (snd (projr (swap_loop_again (projr (AliasAnalysis 1 swap_loop))))) 17 =
     Some {AliasSym 4, AliasSym 5}"
  unfolding swap_loop_result
  by (auto simp add: alias_eval)



end
